theory Spec2Isabelle
  imports Main "HOL-Library.AList"
begin

section \<open>JavaScript values\<close>

text \<open>
  The values that travel through the form: request bodies, responses, middleware results.
  \<open>File\<close>, \<open>Blob\<close> and \<open>Date\<close> are the opaque leaves the cleaning pass tests with
  \<open>instanceof\<close>; a handle or an instant identifies each. \<open>JsError m\<close> is an \<open>Error\<close> object
  with message \<open>m\<close>, as \<open>new Error(m)\<close> makes it. A sequence is a list (a hole of a
  sparse array reads as \<open>Undefined\<close>), a mapping is an association list in insertion order
  (the place JavaScript gives to keys that are array indices, and the names every object
  inherits, such as \<open>constructor\<close>, are left out of the model).
\<close>

datatype jsval =
    Undefined
  | Null
  | Bool bool
  | Num int
  | Str string
  | File nat
  | Blob nat
  | Date int
  | JsError string
  | Arr "jsval list"
  | Obj "(string \<times> jsval) list"

text \<open>
  Modelled from the spec: \<open>hasValue\<close>, \<open>isArray\<close> and \<open>isObject\<close>, which the source imports
  from the package \<open>js-common\<close>; the repository does not hold them. A value is absent when
  it is \<open>undefined\<close> or \<open>null\<close>; a sequence is an array; a mapping is a plain object.
\<close>

fun hasValue :: "jsval \<Rightarrow> bool" where
  "hasValue Undefined = False"
| "hasValue Null = False"
| "hasValue v = True"

fun isArray :: "jsval \<Rightarrow> bool" where
  "isArray (Arr xs) = True"
| "isArray v = False"

fun isObject :: "jsval \<Rightarrow> bool" where
  "isObject (Obj kvs) = True"
| "isObject v = False"

text \<open>
  Modelled from the spec: \<open>toArray\<close> of \<open>js-common\<close>. An absent value is the empty
  sequence, a sequence is itself, anything else is wrapped.
\<close>

fun toArray :: "jsval \<Rightarrow> jsval list" where
  "toArray (Arr xs) = xs"
| "toArray v = (if hasValue v then [v] else [])"

definition whitespace :: "char set" where
  "whitespace = {CHR 0x20, CHR 0x09, CHR 0x0A, CHR 0x0B, CHR 0x0C, CHR 0x0D}"

text \<open>
  Modelled from the spec: \<open>isNotBlank\<close> of \<open>js-common\<close>. A string with at least one
  character that is not white space; no other value is.
\<close>

definition isNotBlank :: "string \<Rightarrow> bool" where
  "isNotBlank s = list_ex (\<lambda>c. c \<notin> whitespace) s"

fun isNotBlankValue :: "jsval \<Rightarrow> bool" where
  "isNotBlankValue (Str s) = isNotBlank s"
| "isNotBlankValue v = False"

definition digits :: "char set" where
  "digits = set ''0123456789''"

text \<open>
  Modelled from the spec: \<open>isInteger\<close> of \<open>js-common\<close>, on a path segment (always a string).
  A segment is numeric when it is a non-empty run of decimal digits.
\<close>

definition isInteger :: "string \<Rightarrow> bool" where
  "isInteger s = (s \<noteq> [] \<and> list_all (\<lambda>c. c \<in> digits) s)"

text \<open>
  Modelled from the spec: \<open>endsWith\<close> of \<open>js-common\<close>. \<open>endsWith(name, '[]')\<close> answers
  \<open>{ exist, value }\<close>: whether the suffix is there, and the name without it.
\<close>

definition endsWith :: "string \<Rightarrow> string \<Rightarrow> bool \<times> string" where
  "endsWith s suffix =
     (if length suffix \<le> length s \<and> drop (length s - length suffix) s = suffix
      then (True, take (length s - length suffix) s)
      else (False, s))"

text \<open>
  Modelled from the spec: the two constants of \<open>js-common\<close> that name the field kinds
  checkbox and radio.
\<close>

definition HTML_CHECKBOX :: string where
  "HTML_CHECKBOX = ''checkbox''"

definition HTML_RADIO :: string where
  "HTML_RADIO = ''radio''"

subsection \<open>Property access\<close>

text \<open>
  An array index is a canonical decimal numeral (\<open>"0"\<close>, \<open>"7"\<close>, \<open>"12"\<close>, not \<open>"01"\<close>).
\<close>

fun digitsToNat :: "nat \<Rightarrow> string \<Rightarrow> nat" where
  "digitsToNat acc [] = acc"
| "digitsToNat acc (c # cs) = digitsToNat (10 * acc + (of_char c - 48)) cs"

definition arrayIndex :: "string \<Rightarrow> nat option" where
  "arrayIndex s =
     (if isInteger s \<and> (s = ''0'' \<or> hd s \<noteq> CHR ''0'') then Some (digitsToNat 0 s) else None)"

text \<open>
  \<open>acc[key]\<close>. Reading a missing key, an index past the end, or any key of a primitive gives
  \<open>undefined\<close>. A property kept on an array under a key that is not an index, or on a file,
  blob or date, never reaches the assembled body (the cleaning pass rebuilds every array with
  \<open>filter\<close> and \<open>map\<close>, and hands the opaque leaves through), so the model holds no such
  property: it reads as \<open>undefined\<close> and writing it changes nothing.
\<close>

fun getProp :: "jsval \<Rightarrow> string \<Rightarrow> jsval" where
  "getProp (Obj kvs) k = (case map_of kvs k of None \<Rightarrow> Undefined | Some v \<Rightarrow> v)"
| "getProp (Arr xs) k =
     (case arrayIndex k of
        None \<Rightarrow> Undefined
      | Some i \<Rightarrow> if i < length xs then xs ! i else Undefined)"
| "getProp (JsError m) k = (if k = ''message'' then Str m else Undefined)"
| "getProp v k = Undefined"

text \<open>\<open>x?.key\<close>\<close>

definition optProp :: "jsval \<Rightarrow> string \<Rightarrow> jsval" where
  "optProp x k = (if hasValue x then getProp x k else Undefined)"

text \<open>
  \<open>acc[key] = value\<close>. A new key of a mapping goes last, a known key keeps its place; writing
  an array past its end leaves holes before the new entry.
\<close>

fun setProp :: "jsval \<Rightarrow> string \<Rightarrow> jsval \<Rightarrow> jsval" where
  "setProp (Obj kvs) k v = Obj (AList.update k v kvs)"
| "setProp (Arr xs) k v =
     (case arrayIndex k of
        None \<Rightarrow> Arr xs
      | Some i \<Rightarrow>
          if i < length xs then Arr (xs[i := v])
          else Arr (xs @ replicate (i - length xs) Undefined @ [v]))"
| "setProp c k v = c"

text \<open>What \<open>||\<close> and \<open>||=\<close> test.\<close>

fun truthy :: "jsval \<Rightarrow> bool" where
  "truthy Undefined = False"
| "truthy Null = False"
| "truthy (Bool b) = b"
| "truthy (Num n) = (n \<noteq> 0)"
| "truthy (Str s) = (s \<noteq> [])"
| "truthy v = True"

text \<open>\<open>Object(x) === x\<close>: \<open>x\<close> is an object of any kind, not a primitive.\<close>

fun isObjectLike :: "jsval \<Rightarrow> bool" where
  "isObjectLike (Obj kvs) = True"
| "isObjectLike (Arr xs) = True"
| "isObjectLike (File h) = True"
| "isObjectLike (Blob h) = True"
| "isObjectLike (Date t) = True"
| "isObjectLike (JsError m) = True"
| "isObjectLike v = False"

section \<open>The final cleaning pass\<close>

text \<open>
  \<^verbatim>\<open>
  function deepFilterArrays(obj) {
    if (obj instanceof File || obj instanceof Blob || obj instanceof Date)
      return obj
    if (isArray(obj)) {
      return obj.filter(hasValue).map(deepFilterArrays)
    } else if (isObject(obj)) {
      return Object.fromEntries(
        objectEntries(obj).map(([key, value]) => [key, deepFilterArrays(value)]))
    }
    return obj
  }
  \<close>
\<close>

fun deepFilterArrays :: "jsval \<Rightarrow> jsval" where
  "deepFilterArrays (File h) = File h"
| "deepFilterArrays (Blob h) = Blob h"
| "deepFilterArrays (Date t) = Date t"
| "deepFilterArrays (Arr xs) = Arr (map deepFilterArrays (filter hasValue xs))"
| "deepFilterArrays (Obj kvs) = Obj (map (\<lambda>(k, v). (k, deepFilterArrays v)) kvs)"
| "deepFilterArrays v = v"

section \<open>Nested path assignment\<close>

text \<open>
  \<open>name.toString().match(/[^.[\]]+/g) || []\<close>: the maximal runs of characters other than
  \<open>.\<close>, \<open>[\<close> and \<open>]\<close>, left to right.
\<close>

fun pathKeysFrom :: "string \<Rightarrow> string \<Rightarrow> string list" where
  "pathKeysFrom cur [] = (if cur = [] then [] else [cur])"
| "pathKeysFrom cur (c # cs) =
     (if c \<in> set ''.[]''
      then (if cur = [] then [] else [cur]) @ pathKeysFrom [] cs
      else pathKeysFrom (cur @ [c]) cs)"

definition pathKeys :: "string \<Rightarrow> string list" where
  "pathKeys name = pathKeysFrom [] name"

text \<open>
  \<^verbatim>\<open>
  keys.slice(0, -1).reduce((acc, key, index) => {
    if (Object(acc[key]) === acc[key]) {
      return acc[key]
    } else {
      acc[key] = isInteger(keys[index + 1]) ? [] : {}
      return acc[key]
    }
  }, obj)[keys[keys.length - 1]] = value
  \<close>
  The source walks down by reference and writes in place; the model rebuilds the containers
  on the way back. With no key at all the last key is \<open>keys[-1]\<close>, that is \<open>undefined\<close>, and
  the write goes to the property of that name.
\<close>

fun assignPath :: "jsval \<Rightarrow> string list \<Rightarrow> jsval \<Rightarrow> jsval" where
  "assignPath acc [] v = setProp acc ''undefined'' v"
| "assignPath acc [k] v = setProp acc k v"
| "assignPath acc (k # k' # ks) v =
     (if isObjectLike (getProp acc k)
      then setProp acc k (assignPath (getProp acc k) (k' # ks) v)
      else setProp acc k (assignPath (if isInteger k' then Arr [] else Obj []) (k' # ks) v))"

text \<open>
  \<^verbatim>\<open>
  function setNestedValue(obj, name, value) {
    if (!hasValue(value) || !isObject(obj))
      return
    ...
  \<close>
\<close>

definition setNestedValue :: "jsval \<Rightarrow> string \<Rightarrow> jsval \<Rightarrow> jsval" where
  "setNestedValue obj name v =
     (if \<not> hasValue v \<or> \<not> isObject obj then obj else assignPath obj (pathKeys name) v)"

section \<open>Fields and the form\<close>

text \<open>
  What the source reads and writes on an input element. \<open>el_type\<close> is the element's own
  \<open>type\<close>, \<open>el_dataType\<close> the declared \<open>type\<close> attribute of the data set that takes its
  place in value extraction; \<open>el_toType\<close> and \<open>el_toValue\<close> are the two places the
  destination bucket is declared (\<open>toProps.type[0]\<close>, \<open>toProps.value[0]\<close>);
  \<open>el_fromType\<close> and \<open>el_fromPattern\<close> are the declared source kind and pattern;
  \<open>el_validation\<close> is the validation-group attribute, \<open>el_applied\<close>,
  \<open>el_appliedRequest\<close> and \<open>el_appliedResponse\<close> the applied-target attribute and its two
  typed forms. \<open>el_mismatch\<close> stands for the host's verdict on the constraints other than
  required-ness (pattern, type, range).
\<close>

record element =
  el_name :: string
  el_type :: string
  el_dataType :: "string option"
  el_value :: string
  el_checked :: bool
  el_files :: "jsval list"
  el_multiple :: bool
  el_selectedOptions :: "string list"
  el_disabled :: bool
  el_required :: bool
  el_customValidity :: string
  el_mismatch :: bool
  el_validation :: "string option"
  el_applied :: "string option"
  el_appliedRequest :: "string option"
  el_appliedResponse :: "string option"
  el_toType :: "string option"
  el_toValue :: "string option"
  el_fromType :: "string option"
  el_fromPattern :: "string option"

text \<open>
  Elements are shared objects: the same element may stand several times in the input
  collection (once among the form's own elements, once among the declared extra inputs),
  and validation writes to it. The document is a store from element identities to
  elements; \<open>inputs\<close> is the collection of \<open>#queryFormInput\<close> before filtering,
  \<open>[...root.elements, ...declared inputs, ...constructor inputs]\<close>.
\<close>

type_synonym doc = "nat \<Rightarrow> element"

record form =
  doc :: doc
  inputs :: "nat list"

text \<open>
  \<^verbatim>\<open>
  #queryFormInput(selector) {
    const inputs = [ ... ]
    return inputs.filter(el => !el.disabled && isNotBlank(el.name)).reduce((acc, el) => {
      if (isNotBlank(selector)) {
        el.matches(selector) && acc.push(el)
      } else {
        acc.push(el)
      }
      return acc
    }, [])
  }
  \<close>
  A selector is the predicate \<open>el.matches(selector)\<close>; \<open>None\<close> is the call without one.
\<close>

definition queryFormInput :: "form \<Rightarrow> (element \<Rightarrow> bool) option \<Rightarrow> nat list" where
  "queryFormInput f selector =
     filter (\<lambda>i. case selector of None \<Rightarrow> True | Some matches \<Rightarrow> matches (doc f i))
       (filter (\<lambda>i. \<not> el_disabled (doc f i) \<and> isNotBlank (el_name (doc f i))) (inputs f))"

section \<open>Value extraction\<close>

text \<open>
  The host functions the extraction calls: \<open>formatString\<close> of \<open>js-common\<close> (pattern, value),
  the configured \<open>request.from\<close> table of source functions by kind, and
  \<open>new Date(value).getTime()\<close>.
\<close>

record host =
  formatString :: "string option \<Rightarrow> jsval \<Rightarrow> jsval"
  getFrom :: "string \<Rightarrow> (jsval \<Rightarrow> jsval) option"
  dateGetTime :: "string \<Rightarrow> jsval"

definition resolvedType :: "element \<Rightarrow> string" where
  "resolvedType el = (case el_dataType el of None \<Rightarrow> el_type el | Some t \<Rightarrow> t)"

text \<open>
  \<^verbatim>\<open>
  const { type: [fromType], value: [pattern] } = this.#datasetToProps('from', el)
  const key = formatString(pattern, result)
  return getFrom?.[fromType]?.(key) ?? key
  \<close>
\<close>

definition sourceLookup :: "host \<Rightarrow> element \<Rightarrow> jsval \<Rightarrow> jsval" where
  "sourceLookup h el result =
     (let key = formatString h (el_fromPattern el) result in
      case el_fromType el of
        None \<Rightarrow> key
      | Some t \<Rightarrow>
          (case getFrom h t of
             None \<Rightarrow> key
           | Some source \<Rightarrow> if hasValue (source key) then source key else key))"

text \<open>
  \<^verbatim>\<open>
  switch (type) {
    case 'month': case 'date': case 'datetime-local':
      return isNotBlank(value) ? new Date(value).getTime() : undefined
    case 'file':
      return el.multiple ? toArray(files) : files[0]
    case 'select-multiple':
      return toArray(el.selectedOptions).map(opts => opts.value)
    case HTML_CHECKBOX:
      result = value !== 'on' && value ? (checked ? value : undefined) : checked
      break
    case HTML_RADIO:
      result = checked ? value : undefined
      break
    default:
      result = el.value
  }
  if (result !== undefined) { ... source lookup ... }
  \<close>
  \<open>switchResult\<close> is \<open>result\<close> on the three branches that leave the switch without
  returning.
\<close>

definition switchResult :: "element \<Rightarrow> jsval" where
  "switchResult el =
     (if resolvedType el = HTML_CHECKBOX then
        (if el_value el \<noteq> ''on'' \<and> el_value el \<noteq> [] then
           (if el_checked el then Str (el_value el) else Undefined)
         else Bool (el_checked el))
      else if resolvedType el = HTML_RADIO then
        (if el_checked el then Str (el_value el) else Undefined)
      else Str (el_value el))"

definition getElementValue :: "host \<Rightarrow> element \<Rightarrow> jsval" where
  "getElementValue h el =
     (if resolvedType el \<in> {''month'', ''date'', ''datetime-local''} then
        (if isNotBlank (el_value el) then dateGetTime h (el_value el) else Undefined)
      else if resolvedType el = ''file'' then
        (if el_multiple el then Arr (el_files el)
         else (case el_files el of [] \<Rightarrow> Undefined | file # _ \<Rightarrow> file))
      else if resolvedType el = ''select-multiple'' then
        Arr (map Str (el_selectedOptions el))
      else if switchResult el \<noteq> Undefined then sourceLookup h el (switchResult el)
      else Undefined)"

section \<open>Payload assembly\<close>

text \<open>
  An entry of \<open>groups[toType]\<close>: one element, a sequence of elements, or (after the
  side-channel merge) a plain value.
\<close>

datatype gentry = GEl nat | GArr "nat list" | GVal jsval

type_synonym groups = "(string \<times> (string \<times> gentry) list) list"

text \<open>The side channels \<open>this.#with\<close>: by inclusion name, bucket and key.\<close>

type_synonym sidechannels = "string \<Rightarrow> (string \<times> (string \<times> jsval) list) list"

definition WITH :: "(string \<times> bool) list" where
  "WITH = [(''append'', False), (''page'', False), (''querystring'', False), (''apply'', True)]"

definition toType :: "element \<Rightarrow> string" where
  "toType el =
     (case el_toType el of
        Some t \<Rightarrow> t
      | None \<Rightarrow> (case el_toValue el of Some t \<Rightarrow> t | None \<Rightarrow> ''data''))"

definition bucket :: "(string \<times> 'a list) list \<Rightarrow> string \<Rightarrow> 'a list" where
  "bucket gs t = (case map_of gs t of None \<Rightarrow> [] | Some b \<Rightarrow> b)"

text \<open>
  \<^verbatim>\<open>
  for (const el of this.#queryFormInput()) {
    const toType = ...
    const { exist, value } = endsWith(el.name, '[]')
    groups[toType] ||= {}
    const target = groups[toType]
    if (hasValue(target[value]) || exist) {
      target[value] = toArray(target[value])
      target[value].push(el)
    } else {
      target[value] = el
    }
  }
  \<close>
  In this loop an entry is an element or a sequence of elements; side-channel values come
  later, so \<open>toArray\<close> of one is never asked for.
\<close>

fun entryToArray :: "gentry option \<Rightarrow> nat list" where
  "entryToArray None = []"
| "entryToArray (Some (GEl i)) = [i]"
| "entryToArray (Some (GArr is)) = is"
| "entryToArray (Some (GVal v)) = []"

definition groupField :: "doc \<Rightarrow> nat \<Rightarrow> groups \<Rightarrow> groups" where
  "groupField d i gs =
     (let (exist, key) = endsWith (el_name (d i)) ''[]'';
          target = bucket gs (toType (d i))
      in AList.update (toType (d i))
           (if map_of target key \<noteq> None \<or> exist
            then AList.update key (GArr (entryToArray (map_of target key) @ [i])) target
            else AList.update key (GEl i) target)
           gs)"

definition groupFields :: "form \<Rightarrow> groups" where
  "groupFields f = fold (groupField (doc f)) (queryFormInput f None) []"

text \<open>
  \<^verbatim>\<open>
  for (const { name, required } of WITH) {
    if (required || withParams.includes(name)) {
      for (const [toType, values] of objectEntries(this.#with[name])) {
        for (const [key, value] of objectEntries(values)) {
          groups[toType] ||= {}
          groups[toType][key] = value
        }
      }
    }
  }
  \<close>
\<close>

definition mergeValue :: "string \<Rightarrow> string \<times> jsval \<Rightarrow> groups \<Rightarrow> groups" where
  "mergeValue t kv gs = AList.update t (AList.update (fst kv) (GVal (snd kv)) (bucket gs t)) gs"

definition mergeBucket :: "string \<times> (string \<times> jsval) list \<Rightarrow> groups \<Rightarrow> groups" where
  "mergeBucket tb gs = fold (mergeValue (fst tb)) (snd tb) gs"

definition mergeWith :: "sidechannels \<Rightarrow> string list \<Rightarrow> string \<times> bool \<Rightarrow> groups \<Rightarrow> groups" where
  "mergeWith w withParams nr gs =
     (if snd nr \<or> fst nr \<in> set withParams then fold mergeBucket (w (fst nr)) gs else gs)"

text \<open>
  \<^verbatim>\<open>
  if (isArray(el)) {
    value = el.flatMap(elem => this.#getElementValue(elem, from)).filter(hasValue)
    value = elementIs(el[0], HTML_RADIO) ? value[0] : value
  } else {
    value = this.#getElementValue(el, from)
  }
  \<close>
  \<open>flatMap\<close> splices a sequence it is handed, one level deep. \<open>#getElementValue\<close> gives
  back unchanged whatever is not an element.
\<close>

fun flat :: "jsval \<Rightarrow> jsval list" where
  "flat (Arr xs) = xs"
| "flat v = [v]"

definition isRadio :: "element \<Rightarrow> bool" where
  "isRadio el = (el_type el = HTML_RADIO)"

fun entryValue :: "host \<Rightarrow> doc \<Rightarrow> gentry \<Rightarrow> jsval" where
  "entryValue h d (GEl i) = getElementValue h (d i)"
| "entryValue h d (GArr is) =
     (let vs = filter hasValue (concat (map (\<lambda>i. flat (getElementValue h (d i))) is)) in
      if (case is of [] \<Rightarrow> False | i # _ \<Rightarrow> isRadio (d i))
      then (case vs of [] \<Rightarrow> Undefined | v # _ \<Rightarrow> v)
      else Arr vs)"
| "entryValue h d (GVal (Arr xs)) = Arr (filter hasValue (concat (map flat xs)))"
| "entryValue h d (GVal v) = v"

text \<open>
  \<^verbatim>\<open>
  const result = {}
  for (const [type, group] of objectEntries(groups)) {
    result[type] ||= {}
    for (const [name, el] of objectEntries(group)) {
      ...
      setNestedValue(result[type], name, value)
    }
  }
  return deepFilterArrays(result)
  \<close>
\<close>

definition writeEntry :: "host \<Rightarrow> doc \<Rightarrow> string \<times> gentry \<Rightarrow> jsval \<Rightarrow> jsval" where
  "writeEntry h d ne target = setNestedValue target (fst ne) (entryValue h d (snd ne))"

definition writeGroup :: "host \<Rightarrow> doc \<Rightarrow> string \<times> (string \<times> gentry) list \<Rightarrow> jsval \<Rightarrow> jsval" where
  "writeGroup h d tg result =
     setProp result (fst tg)
       (fold (writeEntry h d) (snd tg)
          (if truthy (getProp result (fst tg)) then getProp result (fst tg) else Obj []))"

definition writeGroups :: "host \<Rightarrow> doc \<Rightarrow> groups \<Rightarrow> jsval" where
  "writeGroups h d gs = fold (writeGroup h d) gs (Obj [])"

definition mergedGroups :: "form \<Rightarrow> sidechannels \<Rightarrow> string list \<Rightarrow> groups" where
  "mergedGroups f w withParams = fold (mergeWith w withParams) WITH (groupFields f)"

definition generateDataAndProps :: "host \<Rightarrow> form \<Rightarrow> sidechannels \<Rightarrow> string list \<Rightarrow> jsval" where
  "generateDataAndProps h f w withParams =
     deepFilterArrays (writeGroups h (doc f) (mergedGroups f w withParams))"

section \<open>Validation\<close>

text \<open>
  \<open>el.validity.valid\<close> is the host's native check, here for a control with a text value: an
  element is invalid when it carries a custom validity message, when it is required and its
  value is the empty string, or when it fails another native constraint.
\<close>

definition validityValid :: "element \<Rightarrow> bool" where
  "validityValid el =
     (el_customValidity el = [] \<and> \<not> (el_required el \<and> el_value el = []) \<and> \<not> el_mismatch el)"

text \<open>The selector \<open>[validation][required]\<close>.\<close>

definition validationSelector :: "element \<Rightarrow> bool" where
  "validationSelector el = (el_validation el \<noteq> None \<and> el_required el)"

definition setCustomValidity :: "nat \<Rightarrow> string \<Rightarrow> doc \<Rightarrow> doc" where
  "setCustomValidity i msg d = d(i := (d i)\<lparr>el_customValidity := msg\<rparr>)"

definition setDisabled :: "nat \<Rightarrow> bool \<Rightarrow> doc \<Rightarrow> doc" where
  "setDisabled i b d = d(i := (d i)\<lparr>el_disabled := b\<rparr>)"

text \<open>
  \<^verbatim>\<open>
  const groups = this.#queryFormInput(`[${attrName}][required]`).reduce((acc, input) => {
    input.setCustomValidity('')
    const group = input.getAttribute(attrName)
    acc[group] ||= []
    acc[group].push(input)
    return acc
  }, {})
  \<close>
\<close>

definition groupInput :: "doc \<Rightarrow> nat \<Rightarrow> (string \<times> nat list) list \<Rightarrow> (string \<times> nat list) list" where
  "groupInput d i acc =
     (let grp = (case el_validation (d i) of None \<Rightarrow> ''null'' | Some g \<Rightarrow> g)
      in AList.update grp (bucket acc grp @ [i]) acc)"

definition validationGroups :: "form \<Rightarrow> (string \<times> nat list) list" where
  "validationGroups f = fold (groupInput (doc f)) (queryFormInput f (Some validationSelector)) []"

definition clearCustomValidity :: "form \<Rightarrow> doc" where
  "clearCustomValidity f =
     fold (\<lambda>i. setCustomValidity i []) (queryFormInput f (Some validationSelector)) (doc f)"

text \<open>
  \<^verbatim>\<open>
  for (const [group, inputs] of objectEntries(groups)) {
    if (inputs.some(input => isNotBlank(input.value))) {
      inputs.forEach(input => !isNotBlank(input.value) && (input.disabled = true))
    } else {
      inputs[0]?.setCustomValidity(AjaxForm.config.i18n?.validation?.[group] || group)
    }
  }
  \<close>
  \<open>messages\<close> is the table \<open>AjaxForm.config.i18n?.validation\<close>, empty where it has nothing.
\<close>

definition groupMessage :: "(string \<Rightarrow> string) \<Rightarrow> string \<Rightarrow> string" where
  "groupMessage messages grp = (if messages grp \<noteq> [] then messages grp else grp)"

definition resolveGroup :: "(string \<Rightarrow> string) \<Rightarrow> string \<times> nat list \<Rightarrow> doc \<Rightarrow> doc" where
  "resolveGroup messages gi d =
     (if list_ex (\<lambda>i. isNotBlank (el_value (d i))) (snd gi)
      then fold (\<lambda>i d'. if \<not> isNotBlank (el_value (d' i)) then setDisabled i True d' else d') (snd gi) d
      else (case snd gi of
              [] \<Rightarrow> d
            | i # _ \<Rightarrow> setCustomValidity i (groupMessage messages (fst gi)) d))"

text \<open>
  \<^verbatim>\<open>
  this.#queryFormInput().forEach(el => {
    !el.validity.valid && validation.add(el.name)
    el.disabled = false
  })
  \<close>
  The set of names keeps the order of insertion.
\<close>

definition setAdd :: "string \<Rightarrow> string list \<Rightarrow> string list" where
  "setAdd n ns = (if n \<in> set ns then ns else ns @ [n])"

definition standardPass :: "nat \<Rightarrow> doc \<times> string list \<Rightarrow> doc \<times> string list" where
  "standardPass i dv =
     (setDisabled i False (fst dv),
      if \<not> validityValid (fst dv i) then setAdd (el_name (fst dv i)) (snd dv) else snd dv)"

text \<open>The part of \<open>#handleValidation\<close> before the middleware: the new document and the set of
  invalid names.\<close>

definition validate :: "(string \<Rightarrow> string) \<Rightarrow> form \<Rightarrow> form \<times> string list" where
  "validate messages f =
     (let d1 = fold (resolveGroup messages) (validationGroups f) (clearCustomValidity f);
          f1 = f\<lparr>doc := d1\<rparr>;
          (d2, validation) = fold standardPass (queryFormInput f1 None) (d1, [])
      in (f\<lparr>doc := d2\<rparr>, validation))"

section \<open>Applied values\<close>

definition FORM_CLASS_NAME :: string where
  "FORM_CLASS_NAME = ''ajax-form''"

definition FORM_APPLY_CLASS_NAME :: string where
  "FORM_APPLY_CLASS_NAME = FORM_CLASS_NAME @ ''-apply''"

text \<open>
  \<^verbatim>\<open>
  for (const [type, applyData] of objectEntries(payload)) {
    if (isObject(applyData)) {
      for (const [key, value] of objectEntries(applyData)) {
        selectors.set(`[${attrName}="${key}"],[${attrName}-${type}="${key}"]`, value)
      }
    } else if (hasValue(applyData)) {
      selectors.set(`[${attrName}="${FORM_APPLY_CLASS_NAME}-${type}"]`, applyData)
    }
  }
  \<close>
  \<open>payload\<close> is \<open>{ request: detail.request, response: detail.response }\<close>; a selector is kept as
  the predicate it stands for.
\<close>

definition appliedTyped :: "string \<Rightarrow> element \<Rightarrow> string option" where
  "appliedTyped type el =
     (if type = ''request'' then el_appliedRequest el
      else if type = ''response'' then el_appliedResponse el
      else None)"

definition applySelectors :: "string \<times> jsval \<Rightarrow> ((element \<Rightarrow> bool) \<times> jsval) list" where
  "applySelectors ta =
     (case snd ta of
        Obj kvs \<Rightarrow>
          map (\<lambda>(key, v). (\<lambda>el. el_applied el = Some key \<or> appliedTyped (fst ta) el = Some key, v)) kvs
      | applyData \<Rightarrow>
          if hasValue applyData
          then [(\<lambda>el. el_applied el = Some (FORM_APPLY_CLASS_NAME @ ''-'' @ fst ta), applyData)]
          else [])"

text \<open>
  \<^verbatim>\<open>
  selectors.forEach((value, selector) => this.#queryFormInput(selector).forEach(el => {
    const toProps = this.#datasetToProps('to', el)
    const toType = toProps.type[0] ?? toProps?.value[0] ?? 'data'
    this.#with.apply[toType] ||= {}
    this.#with.apply[toType][el.name] = value
  }))
  \<close>
\<close>

definition applyTo :: "doc \<Rightarrow> jsval \<Rightarrow> nat \<Rightarrow> (string \<times> (string \<times> jsval) list) list \<Rightarrow> (string \<times> (string \<times> jsval) list) list" where
  "applyTo d v i ap =
     AList.update (toType (d i)) (AList.update (el_name (d i)) v (bucket ap (toType (d i)))) ap"

definition applySelector :: "form \<Rightarrow> (element \<Rightarrow> bool) \<times> jsval \<Rightarrow> (string \<times> (string \<times> jsval) list) list \<Rightarrow> (string \<times> (string \<times> jsval) list) list" where
  "applySelector f sv ap = fold (applyTo (doc f) (snd sv)) (queryFormInput f (Some (fst sv))) ap"

definition handleEventApplied :: "form \<Rightarrow> jsval \<Rightarrow> jsval \<Rightarrow> sidechannels \<Rightarrow> sidechannels" where
  "handleEventApplied f request response w =
     w(''apply'' :=
         fold (applySelector f)
           (applySelectors (''request'', request) @ applySelectors (''response'', response))
           (w ''apply''))"

section \<open>The submission pipeline\<close>

definition EVENT_LIFECYCLE_BEFORE :: string where
  "EVENT_LIFECYCLE_BEFORE = FORM_CLASS_NAME @ '':before''"

definition EVENT_LIFECYCLE_INVALID :: string where
  "EVENT_LIFECYCLE_INVALID = FORM_CLASS_NAME @ '':invalid''"

definition EVENT_LIFECYCLE_REQUEST :: string where
  "EVENT_LIFECYCLE_REQUEST = FORM_CLASS_NAME @ '':request''"

definition EVENT_LIFECYCLE_RESPONSE :: string where
  "EVENT_LIFECYCLE_RESPONSE = FORM_CLASS_NAME @ '':response''"

definition EVENT_LIFECYCLE_AFTER :: string where
  "EVENT_LIFECYCLE_AFTER = FORM_CLASS_NAME @ '':after''"

definition EVENT_UPLOAD_STOP :: string where
  "EVENT_UPLOAD_STOP = FORM_CLASS_NAME @ '':upload-stop''"

text \<open>
  Modelled from the spec: the two sentinel messages, constants of \<open>js-common\<close>. Only that
  they are two different strings matters here.
\<close>

definition ERROR_VALIDATION :: string where
  "ERROR_VALIDATION = ''ERROR_VALIDATION''"

definition ERROR_CONFIRM :: string where
  "ERROR_CONFIRM = ''ERROR_CONFIRM''"

text \<open>
  What a stage does besides computing its result, in the order it does it. The
  collaborators called for effect only (broadcast, the UI toggles, the success handler) are
  taken to return.
\<close>

datatype effect =
    ConsoleError jsval
  | Broadcast string jsval
  | ResetUIControls
  | EnableElements string
  | DisableElements string
  | ShowElements string
  | HideElements string
  | TriggerEvent string string
  | SuccessHandler string jsval
  | ReportValidity
  | GetError jsval
  | SetMessageError jsval
  | GlobalErrorMiddleware jsval

text \<open>
  A settled promise: \<open>Inl\<close> the rejection reason, \<open>Inr\<close> the value.

  The collaborators of one form. \<open>ready\<close> is \<open>plugins.ready()\<close> (\<open>Some e\<close>: it rejects with
  \<open>e\<close>); \<open>middleware\<close> is the composed hook of a stage, made by the middleware factory;
  \<open>run\<close> is the submit handler with the stage parameters already given; then the configured
  \<open>response.checkResponse\<close>, \<open>getData\<close>, \<open>getPage\<close> and \<open>getError\<close>; \<open>messageError\<close> is the
  number of message-error controls.
\<close>

type_synonym 'a promise = "jsval + 'a"

record env =
  ready :: "jsval option"
  middleware :: "string \<Rightarrow> jsval \<Rightarrow> jsval promise"
  run :: "jsval \<Rightarrow> jsval promise"
  checkResponse :: "jsval \<Rightarrow> bool"
  getData :: "jsval \<Rightarrow> jsval"
  getPage :: "jsval \<Rightarrow> jsval"
  getError :: "jsval \<Rightarrow> jsval promise"
  messageError :: nat

record world =
  w_form :: form
  w_log :: "effect list"

definition emit :: "effect list \<Rightarrow> world \<Rightarrow> world" where
  "emit es w = w\<lparr>w_log := w_log w @ es\<rparr>"

text \<open>\<open>p.then(k)\<close> and \<open>p.catch(k)\<close> on promises that have settled.\<close>

definition andThen :: "'a promise \<times> world \<Rightarrow> ('a \<Rightarrow> world \<Rightarrow> 'b promise \<times> world) \<Rightarrow> 'b promise \<times> world" where
  "andThen p k = (case fst p of Inl e \<Rightarrow> (Inl e, snd p) | Inr x \<Rightarrow> k x (snd p))"

definition orCatch :: "'a promise \<times> world \<Rightarrow> (jsval \<Rightarrow> world \<Rightarrow> 'a promise \<times> world) \<Rightarrow> 'a promise \<times> world" where
  "orCatch p k = (case fst p of Inl e \<Rightarrow> k e (snd p) | Inr x \<Rightarrow> (Inr x, snd p))"

subsection \<open>The default configuration\<close>

text \<open>
  \<^verbatim>\<open>
  checkResponse: res => res?.code === 200,
  getData: res => res?.data?.item,
  getPage: res => res?.data?.page,
  getError: (error = {}) => (
    AjaxForm.config.i18n?.code?.[error.code] ||
    AjaxForm.config.i18n?.status?.[error.status] ||
    error.message || error.code || error.status || error
  )
  \<close>
  \<open>codes\<close> and \<open>statuses\<close> are the tables \<open>AjaxForm.config.i18n?.code\<close> and
  \<open>AjaxForm.config.i18n?.status\<close>, \<open>None\<close> when there is none, each read at the value of the
  error's property. Reading a property of \<open>null\<close> throws a \<open>TypeError\<close>.
\<close>

definition DEFAULT_checkResponse :: "jsval \<Rightarrow> bool" where
  "DEFAULT_checkResponse res = (optProp res ''code'' = Num 200)"

definition DEFAULT_getData :: "jsval \<Rightarrow> jsval" where
  "DEFAULT_getData res = optProp (optProp res ''data'') ''item''"

definition DEFAULT_getPage :: "jsval \<Rightarrow> jsval" where
  "DEFAULT_getPage res = optProp (optProp res ''data'') ''page''"

definition typeError :: jsval where
  "typeError = JsError ''TypeError''"

definition DEFAULT_getError :: "(jsval \<Rightarrow> jsval) option \<Rightarrow> (jsval \<Rightarrow> jsval) option \<Rightarrow> jsval \<Rightarrow> jsval promise" where
  "DEFAULT_getError codes statuses err =
     (let error = (if err = Undefined then Obj [] else err) in
      if error = Null \<and> codes \<noteq> None then Inl typeError
      else if truthy (case codes of None \<Rightarrow> Undefined | Some t \<Rightarrow> t (getProp error ''code''))
        then Inr (case codes of None \<Rightarrow> Undefined | Some t \<Rightarrow> t (getProp error ''code''))
      else if error = Null \<and> statuses \<noteq> None then Inl typeError
      else if truthy (case statuses of None \<Rightarrow> Undefined | Some t \<Rightarrow> t (getProp error ''status''))
        then Inr (case statuses of None \<Rightarrow> Undefined | Some t \<Rightarrow> t (getProp error ''status''))
      else if error = Null then Inl typeError
      else if truthy (getProp error ''message'') then Inr (getProp error ''message'')
      else if truthy (getProp error ''code'') then Inr (getProp error ''code'')
      else if truthy (getProp error ''status'') then Inr (getProp error ''status'')
      else Inr error)"

subsection \<open>Stages\<close>

text \<open>
  \<open>hasValue(result?.request) ? result.request : request\<close>, and the same with \<open>response\<close>.
\<close>

definition overrideOr :: "jsval \<Rightarrow> string \<Rightarrow> jsval \<Rightarrow> jsval" where
  "overrideOr result key original =
     (if hasValue (optProp result key) then getProp result key else original)"

text \<open>
  \<^verbatim>\<open>
  #handleBefore(request, opts) {
    return this.#plugins.ready()
      .then(() => this.#getMiddleware('before', opts)({ request }))
      .then(result => hasValue(result?.request) ? result.request : request)
      .then(result => {
        const data = { request: result }
        this.#plugins.broadcast(EVENT_LIFECYCLE_BEFORE, data)
        this.#resetUIControls()
        this.#successHandler.before(opts, data)
        return result
      })
  }
  \<close>
\<close>

definition handleBefore :: "env \<Rightarrow> jsval \<Rightarrow> world \<Rightarrow> jsval promise \<times> world" where
  "handleBefore E request w =
     (case ready E of
        Some e \<Rightarrow> (Inl e, w)
      | None \<Rightarrow>
          (case middleware E ''before'' (Obj [(''request'', request)]) of
             Inl e \<Rightarrow> (Inl e, w)
           | Inr result \<Rightarrow>
               (let result' = overrideOr result ''request'' request;
                    data = Obj [(''request'', result')]
                in (Inr result',
                    emit [Broadcast EVENT_LIFECYCLE_BEFORE data, ResetUIControls,
                          SuccessHandler ''before'' data] w))))"

text \<open>
  \<^verbatim>\<open>
  return this.#getMiddleware('validation', opts)({ request, validation })
    .then(result => toArray(result?.validation).filter(isNotBlank))
    .then(result => {
      result.forEach(validation.add, validation)
      if (validation.size > 0) {
        this.#root.reportValidity()
        this.#plugins.broadcast(EVENT_LIFECYCLE_INVALID)
        showElements(this.#controls.messageValidation)
        throw new Error(ERROR_VALIDATION)
      }
      return request
    })
  \<close>
  The hook is handed the set of names as the sequence of its members.
\<close>

fun strOf :: "jsval \<Rightarrow> string" where
  "strOf (Str s) = s"
| "strOf v = []"

definition handleValidation :: "env \<Rightarrow> (string \<Rightarrow> string) \<Rightarrow> jsval \<Rightarrow> world \<Rightarrow> jsval promise \<times> world" where
  "handleValidation E messages request w =
     (let (f', validation) = validate messages (w_form w);
          w' = w\<lparr>w_form := f'\<rparr>
      in case middleware E ''validation''
                (Obj [(''request'', request), (''validation'', Arr (map Str validation))]) of
           Inl e \<Rightarrow> (Inl e, w')
         | Inr result \<Rightarrow>
             (let added = filter isNotBlankValue (toArray (optProp result ''validation''));
                  validation' = fold setAdd (map strOf added) validation
              in if length validation' > 0
                 then (Inl (JsError ERROR_VALIDATION),
                       emit [ReportValidity, Broadcast EVENT_LIFECYCLE_INVALID Undefined,
                             ShowElements ''messageValidation''] w')
                 else (Inr request, w')))"

text \<open>
  \<^verbatim>\<open>
  enableElements(this.#controls.enable)
  disableElements(this.#controls.disable)
  showElements(this.#controls.show)
  hideElements(this.#controls.hide)

  return delay(this.#config.get('delay').delay)
    .then(() => this.#getMiddleware('request', opts)({ request }))
    .then(result => hasValue(result?.request) ? result.request : request)
    .then(result => {
      const data = { request: result }
      this.#plugins.broadcast(EVENT_LIFECYCLE_REQUEST, data)
      this.#successHandler.request(opts, data)
      return this.#submitHandler.run(type, opts, result, requestParams)
        .then(res => ({ ...data, response: res }))
    })
  \<close>
  The stage resolves with the pair of \<open>request\<close> and \<open>response\<close>.
\<close>

definition handleRequest :: "env \<Rightarrow> jsval \<Rightarrow> world \<Rightarrow> (jsval \<times> jsval) promise \<times> world" where
  "handleRequest E request w =
     (let w1 = emit [EnableElements ''enable'', DisableElements ''disable'',
                     ShowElements ''show'', HideElements ''hide''] w
      in case middleware E ''request'' (Obj [(''request'', request)]) of
           Inl e \<Rightarrow> (Inl e, w1)
         | Inr result \<Rightarrow>
             (let result' = overrideOr result ''request'' request;
                  data = Obj [(''request'', result')];
                  w2 = emit [Broadcast EVENT_LIFECYCLE_REQUEST data, SuccessHandler ''request'' data] w1
              in case run E result' of
                   Inl e \<Rightarrow> (Inl e, w2)
                 | Inr res \<Rightarrow> (Inr (result', res), w2)))"

text \<open>
  \<^verbatim>\<open>
  return this.#getMiddleware('response', opts)({ request, response })
    .then(result => hasValue(result?.response) ? result.response : response)
    .then(result => checkResponse(result) ? result : Promise.reject(result))
    .then(result => {
      const data = { request, response: getData(result), page: getPage(result) }
      this.#plugins.broadcast(EVENT_LIFECYCLE_RESPONSE, data)
      triggerEvent(this.#controls.progress, EVENT_UPLOAD_STOP)
      this.#resetUIControls()
      this.#successHandler.response(opts, data)
      return data
    })
  \<close>
\<close>

definition handleResponse :: "env \<Rightarrow> jsval \<Rightarrow> jsval \<Rightarrow> world \<Rightarrow> jsval promise \<times> world" where
  "handleResponse E request response w =
     (case middleware E ''response'' (Obj [(''request'', request), (''response'', response)]) of
        Inl e \<Rightarrow> (Inl e, w)
      | Inr result \<Rightarrow>
          (let result' = overrideOr result ''response'' response in
           if \<not> checkResponse E result' then (Inl result', w)
           else
             (let data = Obj [(''request'', request), (''response'', getData E result'),
                              (''page'', getPage E result')]
              in (Inr data,
                  emit [Broadcast EVENT_LIFECYCLE_RESPONSE data,
                        TriggerEvent ''progress'' EVENT_UPLOAD_STOP, ResetUIControls,
                        SuccessHandler ''response'' data] w))))"

text \<open>
  \<^verbatim>\<open>
  #handleAfter(data, opts) {
    return this.#getMiddleware('after', opts)(data).then(_ => {
      this.#plugins.broadcast(EVENT_LIFECYCLE_AFTER, data)
      showElements(this.#controls.messageSuccess)
      this.#successHandler.after(opts, data)
      return data
    })
  }
  \<close>
\<close>

definition handleAfter :: "env \<Rightarrow> jsval \<Rightarrow> world \<Rightarrow> jsval promise \<times> world" where
  "handleAfter E data w =
     (case middleware E ''after'' data of
        Inl e \<Rightarrow> (Inl e, w)
      | Inr _ \<Rightarrow>
          (Inr data,
           emit [Broadcast EVENT_LIFECYCLE_AFTER data, ShowElements ''messageSuccess'',
                 SuccessHandler ''after'' data] w))"

subsection \<open>The error stage\<close>

fun showNat :: "nat \<Rightarrow> string" where
  "showNat n =
     (if n < 10 then [char_of (48 + n)] else showNat (n div 10) @ [char_of (48 + n mod 10)])"

declare showNat.simps [simp del]

text \<open>
  \<open>{ ...error }\<close>: the own enumerable properties. A mapping gives its entries, a sequence and
  a string their entries by index; an \<open>Error\<close> object made by \<open>new Error(m)\<close> has none (its
  message is not enumerable), nor has any other value.
\<close>

fun spread :: "jsval \<Rightarrow> (string \<times> jsval) list" where
  "spread (Obj kvs) = kvs"
| "spread (Arr xs) = zip (map showNat [0..<length xs]) xs"
| "spread (Str s) = zip (map showNat [0..<length s]) (map (\<lambda>c. Str [c]) s)"
| "spread v = []"

definition decorate :: "jsval \<Rightarrow> jsval \<Rightarrow> jsval" where
  "decorate error message = Obj (AList.update ''message'' message (spread error))"

text \<open>
  \<^verbatim>\<open>
  #handleError(error, opts) {
    console.error(error)
    switch (error?.message) {
      case ERROR_VALIDATION:
        return
      case ERROR_CONFIRM:
        return this.#resetUIControls()
    }

    const { getError } = this.#config.get(['response.getError'])
    error = { ...error, message: getError(error) }
    this.#plugins.broadcast(EVENT_LIFECYCLE_AFTER, { error })
    triggerEvent(this.#controls.progress, EVENT_UPLOAD_STOP)
    this.#resetUIControls()

    return this.#getMiddleware('error', opts)(error)
      .then(result => result ?? error)
      .then(result => {
        const { messageError } = this.#controls
        if (messageError.length > 0) {
          messageError.forEach(elem => this.#domHelper.setValueToElement(elem, result))
          showElements(messageError)
        } else {
          AjaxForm.middleware.get('error')?.(result)
        }
        throw result
      })
  }
  \<close>
\<close>

definition handleError :: "env \<Rightarrow> jsval \<Rightarrow> world \<Rightarrow> jsval promise \<times> world" where
  "handleError E error w =
     (let w0 = emit [ConsoleError error] w in
      if optProp error ''message'' = Str ERROR_VALIDATION then (Inr Undefined, w0)
      else if optProp error ''message'' = Str ERROR_CONFIRM
        then (Inr Undefined, emit [ResetUIControls] w0)
      else
        (case getError E error of
           Inl thrown \<Rightarrow> (Inl thrown, emit [GetError error] w0)
         | Inr message \<Rightarrow>
             (let error' = decorate error message;
                  w1 = emit [GetError error,
                             Broadcast EVENT_LIFECYCLE_AFTER (Obj [(''error'', error')]),
                             TriggerEvent ''progress'' EVENT_UPLOAD_STOP, ResetUIControls] w0
              in case middleware E ''error'' error' of
                   Inl e \<Rightarrow> (Inl e, w1)
                 | Inr result \<Rightarrow>
                     (let result' = (if hasValue result then result else error') in
                      (Inl result',
                       emit (if messageError E > 0
                             then [SetMessageError result', ShowElements ''messageError'']
                             else [GlobalErrorMiddleware result']) w1)))))"

subsection \<open>submit\<close>

text \<open>
  \<^verbatim>\<open>
  submit(opts = {}) {
    const { data, ...options } = { ...opts, ...this.#generateDataAndProps(opts.with) }
    ...
    return this.#handleBefore(data, options)
      .then(request => this.#handleValidation(request, options))
      .then(request => this.#handleRequest(request, options))
      .then(({ request, response }) => this.#handleResponse(request, response, options))
      .then(data => this.#handleAfter(data, options))
      .catch(error => this.#handleError(error, options))
  }
  \<close>
  \<open>optsData\<close> is \<open>opts.data\<close>, which stands when the assembled body has no \<open>data\<close> bucket.
\<close>

definition requestData :: "jsval \<Rightarrow> jsval \<Rightarrow> jsval" where
  "requestData optsData generated =
     (case map_of (spread generated) ''data'' of None \<Rightarrow> optsData | Some d \<Rightarrow> d)"

text \<open>The five stages in sequence, each gated on the one before; then the catch-all.\<close>

definition stages :: "env \<Rightarrow> (string \<Rightarrow> string) \<Rightarrow> jsval \<Rightarrow> world \<Rightarrow> jsval promise \<times> world" where
  "stages E messages data w =
     andThen
       (andThen
          (andThen
             (andThen (handleBefore E data w) (handleValidation E messages))
             (handleRequest E))
          (\<lambda>rr. handleResponse E (fst rr) (snd rr)))
       (handleAfter E)"

definition pipeline :: "env \<Rightarrow> (string \<Rightarrow> string) \<Rightarrow> jsval \<Rightarrow> world \<Rightarrow> jsval promise \<times> world" where
  "pipeline E messages data w = orCatch (stages E messages data w) (handleError E)"

definition submit :: "env \<Rightarrow> (string \<Rightarrow> string) \<Rightarrow> host \<Rightarrow> sidechannels \<Rightarrow> jsval \<Rightarrow> string list \<Rightarrow> world \<Rightarrow> jsval promise \<times> world" where
  "submit E messages h sc optsData withParams w =
     pipeline E messages
       (requestData optsData (generateDataAndProps h (w_form w) sc withParams)) w"

subsection \<open>The precedence chain of the error message, as the specification words it\<close>

text \<open>
  Code-keyed lookup, then status-keyed lookup, then the original message, then the code,
  then the status, then the raw object: the first of these that is truthy.
\<close>

definition tableAt :: "(jsval \<Rightarrow> jsval) option \<Rightarrow> jsval \<Rightarrow> jsval" where
  "tableAt table key = (case table of None \<Rightarrow> Undefined | Some t \<Rightarrow> t key)"

definition messageChain :: "(jsval \<Rightarrow> jsval) option \<Rightarrow> (jsval \<Rightarrow> jsval) option \<Rightarrow> jsval \<Rightarrow> jsval" where
  "messageChain codes statuses err =
     (let error = (if err = Undefined then Obj [] else err) in
      case filter truthy
             [tableAt codes (getProp error ''code''), tableAt statuses (getProp error ''status''),
              getProp error ''message'', getProp error ''code'', getProp error ''status''] of
        [] \<Rightarrow> error
      | message # _ \<Rightarrow> message)"

section \<open>Concrete inputs\<close>

text \<open>A text input with nothing declared, from which the examples are made.\<close>

definition textInput :: element where
  "textInput =
     \<lparr>el_name = [], el_type = ''text'', el_dataType = None, el_value = [], el_checked = False,
      el_files = [], el_multiple = False, el_selectedOptions = [], el_disabled = False,
      el_required = False, el_customValidity = [], el_mismatch = False, el_validation = None,
      el_applied = None, el_appliedRequest = None, el_appliedResponse = None,
      el_toType = None, el_toValue = None, el_fromType = None, el_fromPattern = None\<rparr>"

text \<open>A host whose \<open>formatString\<close> hands the value through where no pattern is declared, and
  with no source function configured.\<close>

definition plainHost :: host where
  "plainHost =
     \<lparr>formatString = (\<lambda>pattern v. case pattern of None \<Rightarrow> v | Some p \<Rightarrow> Str p),
      getFrom = (\<lambda>kind. None),
      dateGetTime = (\<lambda>s. Num 0)\<rparr>"

definition checkboxInput :: "string \<Rightarrow> bool \<Rightarrow> element" where
  "checkboxInput v c =
     textInput\<lparr>el_name := ''agree'', el_type := ''checkbox'', el_value := v, el_checked := c\<rparr>"

text \<open>The identity chain of a stage with no hook declared.\<close>

definition passThrough :: "string \<Rightarrow> jsval \<Rightarrow> jsval promise" where
  "passThrough stage payload = Inr payload"

text \<open>An environment with the default configuration and no message catalogue, around the
  given hooks and the given answer of the transport.\<close>

definition defaultEnv :: "(string \<Rightarrow> jsval \<Rightarrow> jsval promise) \<Rightarrow> jsval promise \<Rightarrow> env" where
  "defaultEnv hooks answer =
     \<lparr>ready = None, middleware = hooks, run = (\<lambda>request. answer),
      checkResponse = DEFAULT_checkResponse, getData = DEFAULT_getData,
      getPage = DEFAULT_getPage, getError = DEFAULT_getError None None, messageError = 0\<rparr>"

definition emptyForm :: form where
  "emptyForm = \<lparr>doc = (\<lambda>i. textInput), inputs = []\<rparr>"

definition emptyWorld :: world where
  "emptyWorld = \<lparr>w_form = emptyForm, w_log = []\<rparr>"

text \<open>A hook that overrides both the request and the response.\<close>

definition overridingHook :: "string \<Rightarrow> jsval \<Rightarrow> jsval promise" where
  "overridingHook stage payload =
     Inr (Obj [(''request'', Str ''overridden request''), (''response'', Str ''overridden response'')])"

text \<open>An error hook that puts a text of its own in the error's place.\<close>

definition replacingHook :: "string \<Rightarrow> jsval \<Rightarrow> jsval promise" where
  "replacingHook stage payload = (if stage = ''error'' then Inr (Str ''replaced'') else Inr payload)"

text \<open>A catalogue of messages by error code with one entry.\<close>

definition codeCatalogue :: "jsval \<Rightarrow> jsval" where
  "codeCatalogue code = (if code = Num 40301 then Str ''You may not do this'' else Undefined)"

definition forbidden :: jsval where
  "forbidden = Obj [(''code'', Num 40301), (''status'', Num 403), (''message'', Str ''Forbidden'')]"

text \<open>An answer of the transport that the default acceptance predicate refuses.\<close>

definition responseRejected :: jsval where
  "responseRejected = Obj [(''code'', Num 500)]"

text \<open>What the before, validation and request stages do on an empty form with an empty body
  and no hook.\<close>

definition requestEffects :: "effect list" where
  "requestEffects =
     [Broadcast EVENT_LIFECYCLE_BEFORE (Obj [(''request'', Obj [])]), ResetUIControls,
      SuccessHandler ''before'' (Obj [(''request'', Obj [])]),
      EnableElements ''enable'', DisableElements ''disable'', ShowElements ''show'',
      HideElements ''hide'',
      Broadcast EVENT_LIFECYCLE_REQUEST (Obj [(''request'', Obj [])]),
      SuccessHandler ''request'' (Obj [(''request'', Obj [])])]"


text \<open>A required member of the validation group \<open>contact\<close>, and the form of two fields.\<close>

definition groupMember :: "string \<Rightarrow> string \<Rightarrow> element" where
  "groupMember n v =
     textInput\<lparr>el_name := n, el_value := v, el_required := True, el_validation := Some ''contact''\<rparr>"

definition pairForm :: "element \<Rightarrow> element \<Rightarrow> form" where
  "pairForm a b = \<lparr>doc = (\<lambda>i. textInput)(0 := a, 1 := b), inputs = [0, 1]\<rparr>"



definition namedText :: "string \<Rightarrow> string \<Rightarrow> element" where
  "namedText n v = textInput\<lparr>el_name := n, el_value := v\<rparr>"



section \<open>Notions used in the statements\<close>

text \<open>A field the input collection lets through: enabled, with a name that is not blank.\<close>

definition active :: "doc \<Rightarrow> nat \<Rightarrow> bool" where
  "active d i = (\<not> el_disabled (d i) \<and> isNotBlank (el_name (d i)))"

text \<open>
  Two forms with the same input collection, the same fields let through, and the same
  content in each of these; what the other fields hold is free.
\<close>

definition sameActiveFields :: "form \<Rightarrow> form \<Rightarrow> bool" where
  "sameActiveFields f f' =
     (inputs f' = inputs f
      \<and> (\<forall>i \<in> set (inputs f). active (doc f') i = active (doc f) i
                               \<and> (active (doc f) i \<longrightarrow> doc f' i = doc f i)))"

text \<open>Where a field is grouped: its bucket, and its name without the suffix \<open>[]\<close>.\<close>

definition fieldKey :: "doc \<Rightarrow> nat \<Rightarrow> string \<times> string" where
  "fieldKey d i = (toType (d i), snd (endsWith (el_name (d i)) ''[]''))"

text \<open>The fields an entry of the groups stands for, and the entry at a bucket and key.\<close>

fun entryIds :: "gentry \<Rightarrow> nat set" where
  "entryIds (GEl i) = {i}"
| "entryIds (GArr is) = set is"
| "entryIds (GVal v) = {}"

definition entryAt :: "groups \<Rightarrow> string \<Rightarrow> string \<Rightarrow> gentry option" where
  "entryAt gs t k = map_of (bucket gs t) k"

text \<open>
  The writes of the side-channel merge, in the order the three nested loops make them: by
  inclusion name in the order of \<open>WITH\<close> (a name that is required or asked for), then by
  bucket, then by key.
\<close>

definition sideWrites :: "sidechannels \<Rightarrow> string list \<Rightarrow> ((string \<times> string) \<times> jsval) list" where
  "sideWrites sc withParams =
     concat (map (\<lambda>nr. if snd nr \<or> fst nr \<in> set withParams
                        then concat (map (\<lambda>tb. map (\<lambda>kv. ((fst tb, fst kv), snd kv)) (snd tb))
                                      (sc (fst nr)))
                        else [])
               WITH)"


text \<open>One write of the side-channel merge.\<close>

definition mergeWrite :: "(string \<times> string) \<times> jsval \<Rightarrow> groups \<Rightarrow> groups" where
  "mergeWrite w = mergeValue (fst (fst w)) (snd (fst w), snd w)"

text \<open>Groups as the assembly builds them: no bucket twice, no key twice in a bucket.\<close>

definition distinctKeys :: "(string \<times> (string \<times> 'a) list) list \<Rightarrow> bool" where
  "distinctKeys gs = (distinct (map fst gs) \<and> (\<forall>tb\<in>set gs. distinct (map fst (snd tb))))"

text \<open>Every field behind an entry is one of \<open>X\<close> and is grouped where the entry stands.\<close>

definition keyed :: "doc \<Rightarrow> nat set \<Rightarrow> groups \<Rightarrow> bool" where
  "keyed d X gs =
     (\<forall>t k e i. entryAt gs t k = Some e \<and> i \<in> entryIds e \<longrightarrow> i \<in> X \<and> fieldKey d i = (t, k))"

text \<open>The form of three fields.\<close>

definition tripleForm :: "element \<Rightarrow> element \<Rightarrow> element \<Rightarrow> form" where
  "tripleForm a b c = \<lparr>doc = (\<lambda>i. textInput)(0 := a, 1 := b, 2 := c), inputs = [0, 1, 2]\<rparr>"

text \<open>A required field that is disabled, and a required field with a blank name.\<close>

definition disabledField :: "string \<Rightarrow> element" where
  "disabledField v =
     textInput\<lparr>el_name := ''hidden'', el_value := v, el_required := True, el_disabled := True\<rparr>"

definition namelessField :: "string \<Rightarrow> element" where
  "namelessField v = textInput\<lparr>el_name := '' '', el_value := v, el_required := True\<rparr>"


section \<open>Properties of the cleaning pass\<close>

lemma hasValue_deepFilterArrays: "hasValue (deepFilterArrays v) = hasValue v"
  by (cases v) simp_all

lemma deepFilterArrays_idem: "deepFilterArrays (deepFilterArrays x) = deepFilterArrays x"
proof (induction x rule: deepFilterArrays.induct)
  case (4 xs)
  then show ?case
    by (simp add: filter_map o_def hasValue_deepFilterArrays)
next
  case (5 kvs)
  then show ?case
    by (auto simp: o_def)
qed simp_all

text \<open>
  C7. The cleaning pass is idempotent on every nested structure; it drops the absent entries
  of a sequence and then cleans the ones that stay, cleans a mapping key by key, and hands
  back file handles, blobs and date instants as they are.
\<close>

theorem C7_clean_idempotent:
  "deepFilterArrays (deepFilterArrays x) = deepFilterArrays x
   \<and> deepFilterArrays (Arr xs) = Arr (map deepFilterArrays (filter hasValue xs))
   \<and> deepFilterArrays (Obj kvs) = Obj (map (\<lambda>(k, v). (k, deepFilterArrays v)) kvs)
   \<and> deepFilterArrays (File h) = File h
   \<and> deepFilterArrays (Blob h) = Blob h
   \<and> deepFilterArrays (Date t) = Date t"
  by (simp add: deepFilterArrays_idem)

section \<open>Checkbox extraction\<close>

lemma sourceLookup_plain:
  "el_fromType el = None \<Longrightarrow> el_fromPattern el = None \<Longrightarrow> sourceLookup plainHost el v = v"
  by (simp add: sourceLookup_def plainHost_def)

text \<open>
  C6 (as amended). For a checkbox whose raw value is the generic marker \<open>on\<close> or the empty
  string, the boolean checked state is extracted, checked or not; for any other declared
  value, that value is extracted when the box is checked and nothing (\<open>undefined\<close>, so the
  field is left out) when it is not. What is extracted then goes through the field's source
  lookup.
\<close>

theorem C6_checkbox_extraction:
  "resolvedType el = HTML_CHECKBOX \<Longrightarrow>
   getElementValue h el =
     (if el_value el = ''on'' \<or> el_value el = [] then sourceLookup h el (Bool (el_checked el))
      else if el_checked el then sourceLookup h el (Str (el_value el))
      else Undefined)"
  by (simp add: getElementValue_def switchResult_def HTML_CHECKBOX_def)

theorem C6_checkbox_extraction_witness:
  "resolvedType (checkboxInput ''yes'' True) = HTML_CHECKBOX
   \<and> getElementValue plainHost (checkboxInput ''yes'' True) = Str ''yes''
   \<and> getElementValue plainHost (checkboxInput ''yes'' False) = Undefined
   \<and> getElementValue plainHost (checkboxInput ''on'' True) = Bool True
   \<and> getElementValue plainHost (checkboxInput [] False) = Bool False"
proof -
  have t: "resolvedType (checkboxInput v c) = HTML_CHECKBOX" for v c
    by (simp add: resolvedType_def checkboxInput_def textInput_def HTML_CHECKBOX_def)
  have l: "sourceLookup plainHost (checkboxInput v c) x = x" for v c x
    by (simp add: sourceLookup_plain checkboxInput_def textInput_def)
  show ?thesis
    using C6_checkbox_extraction [OF t, of plainHost "''yes''" True]
      C6_checkbox_extraction [OF t, of plainHost "''yes''" False]
      C6_checkbox_extraction [OF t, of plainHost "''on''" True]
      C6_checkbox_extraction [OF t, of plainHost "[]" False]
    by (simp add: t l) (simp add: checkboxInput_def textInput_def)
qed

text \<open>
  The claim as it was stated fails for a checkbox whose declared value is the empty string:
  it is not the marker \<open>on\<close>, yet checked it yields \<open>true\<close> and not its declared value, and
  unchecked it yields \<open>false\<close> and is not left out.
\<close>

theorem C6_empty_value_counterexample:
  "resolvedType (checkboxInput [] True) = HTML_CHECKBOX
   \<and> el_value (checkboxInput [] True) \<noteq> ''on''
   \<and> el_checked (checkboxInput [] True)
   \<and> getElementValue plainHost (checkboxInput [] True) = Bool True
   \<and> getElementValue plainHost (checkboxInput [] True) \<noteq> Str (el_value (checkboxInput [] True))
   \<and> \<not> el_checked (checkboxInput [] False)
   \<and> getElementValue plainHost (checkboxInput [] False) = Bool False
   \<and> getElementValue plainHost (checkboxInput [] False) \<noteq> Undefined"
  by (simp add: getElementValue_def switchResult_def resolvedType_def checkboxInput_def
      textInput_def HTML_CHECKBOX_def sourceLookup_def plainHost_def)

section \<open>Hook overrides\<close>

lemma overrideOr_eq:
  "overrideOr result key original =
     (if hasValue (optProp result key) then optProp result key else original)"
  by (auto simp: overrideOr_def optProp_def)

text \<open>
  C9. At the before, request and response stages the value that goes on is the hook's
  \<open>request\<close> (or \<open>response\<close>) where the hook's result holds one that is neither \<open>undefined\<close>
  nor \<open>null\<close>, and the original payload otherwise: the before stage resolves with it, the
  request stage hands it to the transport and resolves with it beside the answer, the
  response stage tests it with the acceptance predicate and extracts from it.
\<close>

theorem C9_override_or_pass_through:
  "(ready E = None \<and> middleware E ''before'' (Obj [(''request'', request)]) = Inr result
      \<longrightarrow> fst (handleBefore E request w) =
            Inr (if hasValue (optProp result ''request'') then optProp result ''request''
                 else request))
   \<and> (middleware E ''request'' (Obj [(''request'', request)]) = Inr result
      \<longrightarrow> fst (handleRequest E request w) =
            (case run E (if hasValue (optProp result ''request'') then optProp result ''request''
                         else request) of
               Inl e \<Rightarrow> Inl e
             | Inr res \<Rightarrow>
                 Inr (if hasValue (optProp result ''request'') then optProp result ''request''
                      else request, res)))
   \<and> (middleware E ''response'' (Obj [(''request'', request), (''response'', response)]) = Inr result
      \<longrightarrow> fst (handleResponse E request response w) =
            (let picked = (if hasValue (optProp result ''response'')
                           then optProp result ''response'' else response)
             in if checkResponse E picked
                then Inr (Obj [(''request'', request), (''response'', getData E picked),
                               (''page'', getPage E picked)])
                else Inl picked))"
  by (auto simp: handleBefore_def handleRequest_def handleResponse_def overrideOr_eq Let_def
      split: sum.splits)

theorem C9_override_or_pass_through_witness:
  "fst (handleBefore (defaultEnv overridingHook (Inr Null)) (Str ''original'') emptyWorld)
     = Inr (Str ''overridden request'')
   \<and> fst (handleBefore (defaultEnv (\<lambda>stage payload. Inr (Obj [])) (Inr Null))
            (Str ''original'') emptyWorld)
     = Inr (Str ''original'')
   \<and> fst (handleRequest (defaultEnv overridingHook (Inr Null)) (Str ''original'') emptyWorld)
     = Inr (Str ''overridden request'', Null)
   \<and> fst (handleResponse (defaultEnv overridingHook (Inr Null)) (Str ''original'') Null emptyWorld)
     = Inl (Str ''overridden response'')"
  using C9_override_or_pass_through [of "defaultEnv overridingHook (Inr Null)" "Str ''original''"
      "Obj [(''request'', Str ''overridden request''), (''response'', Str ''overridden response'')]"
      emptyWorld Null]
    C9_override_or_pass_through [of "defaultEnv (\<lambda>stage payload. Inr (Obj [])) (Inr Null)"
      "Str ''original''" "Obj []" emptyWorld Null]
  by (simp add: defaultEnv_def overridingHook_def optProp_def DEFAULT_checkResponse_def)

section \<open>The error stage\<close>

lemma DEFAULT_getError_chain:
  "error \<noteq> Null \<Longrightarrow> DEFAULT_getError codes statuses error = Inr (messageChain codes statuses error)"
  by (simp add: DEFAULT_getError_def messageChain_def tableAt_def Let_def split: option.splits)

lemma emit_emit: "emit es (emit es' w) = emit (es' @ es) w"
  by (simp add: emit_def)

lemma sentinels_differ: "ERROR_CONFIRM \<noteq> ERROR_VALIDATION"
  by (simp add: ERROR_CONFIRM_def ERROR_VALIDATION_def)

text \<open>
  C2 (as amended). An error whose message is the validation sentinel makes the error stage
  resolve, having done nothing but log it: no message is resolved. One whose message is the
  confirmation sentinel makes it resolve after the reset of the UI controls. Any other error
  (\<open>null\<close> apart) is copied into a fresh object whose \<open>message\<close> is the first truthy of:
  the catalogue entry for its code, the catalogue entry for its status, its own message, its
  code, its status, and else the error itself; the error hook runs on that object, and the
  stage rejects with the hook's result where it is neither \<open>undefined\<close> nor \<open>null\<close>, with
  the decorated object where it is, and with the hook's own reason where the hook rejects.
  Whatever the five stages reject with is handed to the error stage, whose outcome is the
  outcome of the submission.
\<close>

theorem C2_error_stage:
  "(optProp error ''message'' = Str ERROR_VALIDATION
      \<longrightarrow> handleError E error w = (Inr Undefined, emit [ConsoleError error] w))
   \<and> (optProp error ''message'' = Str ERROR_CONFIRM
      \<longrightarrow> handleError E error w = (Inr Undefined, emit [ConsoleError error, ResetUIControls] w))
   \<and> (optProp error ''message'' \<noteq> Str ERROR_VALIDATION \<and> optProp error ''message'' \<noteq> Str ERROR_CONFIRM
       \<and> error \<noteq> Null \<and> getError E = DEFAULT_getError codes statuses
      \<longrightarrow> fst (handleError E error w) =
            (case middleware E ''error'' (decorate error (messageChain codes statuses error)) of
               Inl e \<Rightarrow> Inl e
             | Inr result \<Rightarrow>
                 Inl (if hasValue result then result
                      else decorate error (messageChain codes statuses error))))
   \<and> (fst (stages E messages data w) = Inl error
      \<longrightarrow> pipeline E messages data w = handleError E error (snd (stages E messages data w)))"
  by (auto simp: handleError_def Let_def emit_emit sentinels_differ DEFAULT_getError_chain
      pipeline_def orCatch_def split: sum.splits)

lemma validate_emptyForm: "validate messages emptyForm = (emptyForm, [])"
  by (simp add: validate_def validationGroups_def clearCustomValidity_def queryFormInput_def
      emptyForm_def)

lemma first_stages_emptyWorld:
  assumes "ready E = None"
    and "middleware E ''before'' (Obj [(''request'', Obj [])]) = Inr (Obj [(''request'', Obj [])])"
    and "middleware E ''validation'' (Obj [(''request'', Obj []), (''validation'', Arr [])])
           = Inr (Obj [(''request'', Obj []), (''validation'', Arr [])])"
    and "middleware E ''request'' (Obj [(''request'', Obj [])]) = Inr (Obj [(''request'', Obj [])])"
  shows "andThen (andThen (handleBefore E (Obj []) emptyWorld)
             (handleValidation E messages)) (handleRequest E)
         = (case run E (Obj []) of
              Inl e \<Rightarrow> (Inl e, emit requestEffects emptyWorld)
            | Inr res \<Rightarrow> (Inr (Obj [], res), emit requestEffects emptyWorld))"
  using assms
  by (simp add: andThen_def handleBefore_def handleValidation_def handleRequest_def
      overrideOr_def optProp_def validate_emptyForm emptyWorld_def emit_def Let_def
      requestEffects_def split: sum.splits)

lemma stages_transport_rejects:
  assumes "ready E = None"
    and "middleware E ''before'' (Obj [(''request'', Obj [])]) = Inr (Obj [(''request'', Obj [])])"
    and "middleware E ''validation'' (Obj [(''request'', Obj []), (''validation'', Arr [])])
           = Inr (Obj [(''request'', Obj []), (''validation'', Arr [])])"
    and "middleware E ''request'' (Obj [(''request'', Obj [])]) = Inr (Obj [(''request'', Obj [])])"
    and "run E (Obj []) = Inl reason"
  shows "stages E messages (Obj []) emptyWorld = (Inl reason, emit requestEffects emptyWorld)"
  unfolding stages_def first_stages_emptyWorld [OF assms(1-4)]
  by (simp add: andThen_def assms(5))

theorem C2_error_stage_witness:
  "handleError (defaultEnv passThrough (Inr Null)) (JsError ERROR_VALIDATION) emptyWorld
     = (Inr Undefined, emit [ConsoleError (JsError ERROR_VALIDATION)] emptyWorld)
   \<and> handleError (defaultEnv passThrough (Inr Null)) (JsError ERROR_CONFIRM) emptyWorld
     = (Inr Undefined, emit [ConsoleError (JsError ERROR_CONFIRM), ResetUIControls] emptyWorld)
   \<and> fst (handleError
            ((defaultEnv passThrough (Inr Null))\<lparr>getError := DEFAULT_getError (Some codeCatalogue) None\<rparr>)
            forbidden emptyWorld)
     = Inl (Obj [(''code'', Num 40301), (''status'', Num 403),
                 (''message'', Str ''You may not do this'')])
   \<and> fst (pipeline (defaultEnv passThrough (Inl forbidden)) (\<lambda>g. []) (Obj []) emptyWorld)
     = Inl (Obj [(''code'', Num 40301), (''status'', Num 403), (''message'', Str ''Forbidden'')])"
proof -
  let ?E = "defaultEnv passThrough (Inr Null)"
  let ?E' = "?E\<lparr>getError := DEFAULT_getError (Some codeCatalogue) None\<rparr>"
  let ?R = "defaultEnv passThrough (Inl forbidden)"
  have v: "optProp (JsError ERROR_VALIDATION) ''message'' = Str ERROR_VALIDATION"
    and c: "optProp (JsError ERROR_CONFIRM) ''message'' = Str ERROR_CONFIRM"
    by (simp_all add: optProp_def)
  have other:
    "optProp forbidden ''message'' \<noteq> Str ERROR_VALIDATION
     \<and> optProp forbidden ''message'' \<noteq> Str ERROR_CONFIRM \<and> forbidden \<noteq> Null"
    by (simp add: optProp_def forbidden_def ERROR_VALIDATION_def ERROR_CONFIRM_def)
  have g': "getError ?E' = DEFAULT_getError (Some codeCatalogue) None"
    and g: "getError ?R = DEFAULT_getError None None"
    by (simp_all add: defaultEnv_def)
  have rejected: "fst (stages ?R (\<lambda>g. []) (Obj []) emptyWorld) = Inl forbidden"
    by (simp add: stages_transport_rejects defaultEnv_def passThrough_def)
  have 1: "handleError ?E (JsError ERROR_VALIDATION) emptyWorld
             = (Inr Undefined, emit [ConsoleError (JsError ERROR_VALIDATION)] emptyWorld)"
    using C2_error_stage [of "JsError ERROR_VALIDATION" ?E emptyWorld] v by blast
  have 2: "handleError ?E (JsError ERROR_CONFIRM) emptyWorld
             = (Inr Undefined, emit [ConsoleError (JsError ERROR_CONFIRM), ResetUIControls] emptyWorld)"
    using C2_error_stage [of "JsError ERROR_CONFIRM" ?E emptyWorld] c by blast
  have 3: "fst (handleError ?E' forbidden emptyWorld) =
             (case middleware ?E' ''error''
                     (decorate forbidden (messageChain (Some codeCatalogue) None forbidden)) of
                Inl e \<Rightarrow> Inl e
              | Inr result \<Rightarrow>
                  Inl (if hasValue result then result
                       else decorate forbidden (messageChain (Some codeCatalogue) None forbidden)))"
    using C2_error_stage [of forbidden ?E' emptyWorld "Some codeCatalogue" None] other g' by blast
  have 4: "pipeline ?R (\<lambda>g. []) (Obj []) emptyWorld =
             handleError ?R forbidden (snd (stages ?R (\<lambda>g. []) (Obj []) emptyWorld))"
    using C2_error_stage [of forbidden ?R emptyWorld None None "\<lambda>g. []" "Obj []"] rejected
    by blast
  have 5: "fst (handleError ?R forbidden w) =
             (case middleware ?R ''error'' (decorate forbidden (messageChain None None forbidden)) of
                Inl e \<Rightarrow> Inl e
              | Inr result \<Rightarrow>
                  Inl (if hasValue result then result
                       else decorate forbidden (messageChain None None forbidden)))" for w
    using C2_error_stage [of forbidden ?R w None None] other g by blast
  have m': "messageChain (Some codeCatalogue) None forbidden = Str ''You may not do this''"
    and m: "messageChain None None forbidden = Str ''Forbidden''"
    by (simp_all add: messageChain_def tableAt_def forbidden_def codeCatalogue_def)
  have d': "decorate forbidden (Str ''You may not do this'') =
              Obj [(''code'', Num 40301), (''status'', Num 403),
                   (''message'', Str ''You may not do this'')]"
    and d: "decorate forbidden (Str ''Forbidden'') = forbidden"
    by (simp_all add: decorate_def forbidden_def)
  show ?thesis
    using 1 2 3 4 5 [of "snd (stages ?R (\<lambda>g. []) (Obj []) emptyWorld)"]
    by (simp add: m m' d d' defaultEnv_def passThrough_def) (simp add: forbidden_def)
qed


text \<open>
  The claim as it was stated fails where an error hook answers: the submission rejects with
  the hook's result, not with the decorated error.
\<close>

theorem C2_replaced_error_counterexample:
  "optProp responseRejected ''message'' \<noteq> Str ERROR_VALIDATION
   \<and> optProp responseRejected ''message'' \<noteq> Str ERROR_CONFIRM
   \<and> getError (defaultEnv replacingHook (Inl responseRejected)) responseRejected = Inr (Num 500)
   \<and> decorate responseRejected (Num 500) = Obj [(''code'', Num 500), (''message'', Num 500)]
   \<and> fst (stages (defaultEnv replacingHook (Inl responseRejected)) (\<lambda>g. []) (Obj []) emptyWorld)
       = Inl responseRejected
   \<and> fst (pipeline (defaultEnv replacingHook (Inl responseRejected)) (\<lambda>g. []) (Obj []) emptyWorld)
       = Inl (Str ''replaced'')
   \<and> fst (pipeline (defaultEnv replacingHook (Inl responseRejected)) (\<lambda>g. []) (Obj []) emptyWorld)
       \<noteq> Inl (decorate responseRejected (Num 500))"
proof -
  let ?E = "defaultEnv replacingHook (Inl responseRejected)"
  have s: "stages ?E (\<lambda>g. []) (Obj []) emptyWorld = (Inl responseRejected, emit requestEffects emptyWorld)"
    by (rule stages_transport_rejects) (simp_all add: defaultEnv_def replacingHook_def)
  have h: "fst (handleError ?E responseRejected w) = Inl (Str ''replaced'')" for w
    by (simp add: handleError_def optProp_def responseRejected_def defaultEnv_def
        replacingHook_def DEFAULT_getError_def decorate_def Let_def)
  show ?thesis
    by (simp add: pipeline_def orCatch_def s h)
      (simp add: optProp_def responseRejected_def defaultEnv_def DEFAULT_getError_def decorate_def)
qed

section \<open>A refused response\<close>

text \<open>
  C3 (as amended). Where the acceptance predicate refuses the response (the response hook's
  override where it gives one), the response stage rejects with that very value, before any
  extraction and with no effect of its own; in the pipeline the value is then the error
  handed to the error stage, whose outcome is the outcome of the submission.
\<close>

theorem C3_rejected_response:
  "(middleware E ''response'' (Obj [(''request'', request), (''response'', response)]) = Inr result
    \<and> \<not> checkResponse E (overrideOr result ''response'' response)
      \<longrightarrow> handleResponse E request response w
            = (Inl (overrideOr result ''response'' response), w))
   \<and> (andThen (andThen (handleBefore E data w0) (handleValidation E messages))
          (handleRequest E) = (Inr (request, response), w)
      \<and> middleware E ''response'' (Obj [(''request'', request), (''response'', response)]) = Inr result
      \<and> \<not> checkResponse E (overrideOr result ''response'' response)
      \<longrightarrow> pipeline E messages data w0
            = handleError E (overrideOr result ''response'' response) w)"
  by (simp add: handleResponse_def pipeline_def stages_def andThen_def orCatch_def Let_def)

theorem C3_rejected_response_witness:
  "handleResponse (defaultEnv passThrough (Inr responseRejected)) (Obj []) responseRejected
      (emit requestEffects emptyWorld)
     = (Inl responseRejected, emit requestEffects emptyWorld)
   \<and> pipeline (defaultEnv passThrough (Inr responseRejected)) (\<lambda>g. []) (Obj []) emptyWorld
     = handleError (defaultEnv passThrough (Inr responseRejected)) responseRejected
         (emit requestEffects emptyWorld)"
proof -
  let ?E = "defaultEnv passThrough (Inr responseRejected)"
  let ?result = "Obj [(''request'', Obj []), (''response'', responseRejected)]"
  have hook: "middleware ?E ''response'' ?result = Inr ?result"
    by (simp add: defaultEnv_def passThrough_def)
  have picked: "overrideOr ?result ''response'' responseRejected = responseRejected"
    by (simp add: overrideOr_def optProp_def responseRejected_def)
  have refused: "\<not> checkResponse ?E (overrideOr ?result ''response'' responseRejected)"
    by (simp add: picked) (simp add: defaultEnv_def DEFAULT_checkResponse_def optProp_def responseRejected_def)
  have first: "andThen (andThen (handleBefore ?E (Obj []) emptyWorld)
                 (handleValidation ?E (\<lambda>g. []))) (handleRequest ?E)
               = (Inr (Obj [], responseRejected), emit requestEffects emptyWorld)"
    by (subst first_stages_emptyWorld) (simp_all add: defaultEnv_def passThrough_def)
  show ?thesis
    using C3_rejected_response [of ?E "Obj []" responseRejected ?result "emit requestEffects emptyWorld"
        "Obj []" emptyWorld "\<lambda>g. []"] hook refused first
    by (simp add: picked)
qed

text \<open>
  The claim as it was stated fails for the submission as a whole: with the default
  configuration and no hook, a response \<open>{ code: 500 }\<close> makes the submission reject with
  the decorated copy \<open>{ code: 500, message: 500 }\<close>, not with the response.
\<close>

theorem C3_decorated_rejection_counterexample:
  "\<not> checkResponse (defaultEnv passThrough (Inr responseRejected)) responseRejected
   \<and> fst (pipeline (defaultEnv passThrough (Inr responseRejected)) (\<lambda>g. []) (Obj []) emptyWorld)
       = Inl (Obj [(''code'', Num 500), (''message'', Num 500)])
   \<and> fst (pipeline (defaultEnv passThrough (Inr responseRejected)) (\<lambda>g. []) (Obj []) emptyWorld)
       \<noteq> Inl responseRejected"
proof -
  let ?E = "defaultEnv passThrough (Inr responseRejected)"
  have first: "andThen (andThen (handleBefore ?E (Obj []) emptyWorld)
                 (handleValidation ?E (\<lambda>g. []))) (handleRequest ?E)
               = (Inr (Obj [], responseRejected), emit requestEffects emptyWorld)"
    by (subst first_stages_emptyWorld) (simp_all add: defaultEnv_def passThrough_def)
  have r: "handleResponse ?E (Obj []) responseRejected w = (Inl responseRejected, w)" for w
    by (simp add: handleResponse_def defaultEnv_def passThrough_def overrideOr_def optProp_def
        DEFAULT_checkResponse_def responseRejected_def)
  have h: "fst (handleError ?E responseRejected w) = Inl (Obj [(''code'', Num 500), (''message'', Num 500)])" for w
    by (simp add: handleError_def optProp_def responseRejected_def defaultEnv_def
        passThrough_def DEFAULT_getError_def decorate_def Let_def)
  show ?thesis
    unfolding pipeline_def stages_def first
    by (simp add: andThen_def r orCatch_def h)
      (simp add: defaultEnv_def DEFAULT_checkResponse_def optProp_def responseRejected_def)
qed

section \<open>Validation groups\<close>

lemmas validate_defs =
  validate_def validationGroups_def clearCustomValidity_def queryFormInput_def
  validationSelector_def groupInput_def bucket_def resolveGroup_def setDisabled_def
  setCustomValidity_def standardPass_def validityValid_def




text \<open>
  C1 (the code at the failing input). In a form of two required fields of one group, the
  first filled in and the second empty, the second is enabled before the validation pass
  and disabled after it: the pass that writes \<open>disabled = false\<close> runs over the result of
  \<open>#queryFormInput\<close>, which has already left the disabled field out.
\<close>

theorem C1_exempted_member_stays_disabled:
  "\<not> el_disabled (doc (pairForm (groupMember ''email'' ''x@y'') (groupMember ''phone'' [])) 1)
   \<and> snd (validate (\<lambda>g. []) (pairForm (groupMember ''email'' ''x@y'') (groupMember ''phone'' [])))
       = []
   \<and> el_disabled
       (doc (fst (validate (\<lambda>g. [])
          (pairForm (groupMember ''email'' ''x@y'') (groupMember ''phone'' [])))) 1)"
  by (simp add: validate_defs pairForm_def groupMember_def textInput_def isNotBlank_def
      whitespace_def)




section \<open>Nested path assignment and the assembled body\<close>





lemmas assemble_defs =
  generateDataAndProps_def mergedGroups_def groupFields_def queryFormInput_def groupField_def
  writeGroups_def writeGroup_def writeEntry_def mergeWith_def mergeBucket_def mergeValue_def
  WITH_def bucket_def toType_def endsWith_def setNestedValue_def pathKeys_def
  getElementValue_def switchResult_def isInteger_def digits_def resolvedType_def
  sourceLookup_def isRadio_def HTML_RADIO_def HTML_CHECKBOX_def isNotBlank_def whitespace_def






section \<open>Only the fields let through are read\<close>

lemma queryFormInput_active: "i \<in> set (queryFormInput f sel) \<Longrightarrow> active (doc f) i \<and> i \<in> set (inputs f)"
  by (auto simp: queryFormInput_def active_def)

lemma queryFormInput_eq:
  "queryFormInput f sel =
     filter (\<lambda>i. active (doc f) i \<and> (case sel of None \<Rightarrow> True | Some matches \<Rightarrow> matches (doc f i))) (inputs f)"
  by (auto simp: queryFormInput_def active_def intro: filter_cong)

lemma queryFormInput_cong:
  assumes "sameActiveFields f f'"
  shows "queryFormInput f' sel = queryFormInput f sel"
  using assms unfolding queryFormInput_eq sameActiveFields_def
  by (auto intro!: filter_cong split: option.splits)

lemma sameActiveFields_doc:
  "sameActiveFields f f' \<Longrightarrow> i \<in> set (queryFormInput f sel) \<Longrightarrow> doc f' i = doc f i"
  by (auto simp: sameActiveFields_def dest!: queryFormInput_active)

subsection \<open>Association lists\<close>

lemma set_update_subset: "set (AList.update k v al) \<subseteq> insert (k, v) (set al)"
  by (induction al) auto

lemma bucket_member:
  assumes "x \<in> set (bucket gs t)"
  shows "\<exists>b. (t, b) \<in> set gs \<and> x \<in> set b"
proof (cases "map_of gs t")
  case None
  then show ?thesis using assms by (simp add: bucket_def)
next
  case (Some b)
  then show ?thesis using assms by (auto simp: bucket_def dest: map_of_SomeD)
qed

subsection \<open>The validation pass reads and writes the fields let through only\<close>

lemma groupInput_members:
  "(g, is) \<in> set (fold (groupInput d) xs acc) \<Longrightarrow> i \<in> set is \<Longrightarrow>
   i \<in> set xs \<or> (\<exists>g' js. (g', js) \<in> set acc \<and> i \<in> set js)"
proof (induction xs arbitrary: acc)
  case Nil
  then show ?case by auto
next
  case (Cons x xs)
  from Cons.IH [of "groupInput d x acc"] Cons.prems
  consider "i \<in> set xs" | g' js where "(g', js) \<in> set (groupInput d x acc)" "i \<in> set js"
    by auto
  then show ?case
  proof cases
    case 1
    then show ?thesis by simp
  next
    case 2
    then show ?thesis
      using set_update_subset [of _ _ acc] bucket_member [of i acc]
      by (fastforce simp: groupInput_def Let_def)
  qed
qed

lemma validationGroups_members:
  "(g, is) \<in> set (validationGroups f) \<Longrightarrow> set is \<subseteq> set (queryFormInput f (Some validationSelector))"
  using groupInput_members [of g "is" "doc f" _ "[]"] by (auto simp: validationGroups_def)

lemma clear_pointwise:
  "fold (\<lambda>i. setCustomValidity i []) xs d j =
     (if j \<in> set xs then (d j)\<lparr>el_customValidity := []\<rparr> else d j)"
  by (induction xs arbitrary: d) (auto simp: setCustomValidity_def)

lemma disable_blank_pointwise:
  "fold (\<lambda>i d'. if \<not> isNotBlank (el_value (d' i)) then setDisabled i True d' else d') xs d j =
     (if j \<in> set xs \<and> \<not> isNotBlank (el_value (d j)) then (d j)\<lparr>el_disabled := True\<rparr> else d j)"
  by (induction xs arbitrary: d) (auto simp: setDisabled_def)

lemma resolveGroup_pointwise:
  "resolveGroup messages (g, is) d j =
     (if list_ex (\<lambda>i. isNotBlank (el_value (d i))) is
      then (if j \<in> set is \<and> \<not> isNotBlank (el_value (d j)) then (d j)\<lparr>el_disabled := True\<rparr> else d j)
      else (case is of [] \<Rightarrow> d j
            | i # _ \<Rightarrow> if j = i then (d j)\<lparr>el_customValidity := groupMessage messages g\<rparr> else d j))"
  by (simp add: resolveGroup_def disable_blank_pointwise setCustomValidity_def split: list.splits)

lemma resolveGroup_frame: "j \<notin> set (snd gi) \<Longrightarrow> resolveGroup messages gi d j = d j"
  by (cases gi) (auto simp: resolveGroup_pointwise split: list.splits)

lemma resolveGroup_agree:
  assumes "\<forall>i\<in>S. d' i = d i" "set (snd gi) \<subseteq> S" "j \<in> S"
  shows "resolveGroup messages gi d' j = resolveGroup messages gi d j"
proof -
  obtain g "is" where gi: "gi = (g, is)" by (cases gi)
  have "\<forall>i\<in>set is. d' i = d i"
    using assms gi by auto
  then have "list_ex (\<lambda>i. isNotBlank (el_value (d' i))) is = list_ex (\<lambda>i. isNotBlank (el_value (d i))) is"
    by (simp add: list_ex_iff)
  then show ?thesis
    using assms gi by (auto simp: resolveGroup_pointwise split: list.splits)
qed

lemma resolveGroup_name: "el_name (resolveGroup messages gi d j) = el_name (d j)"
  by (cases gi) (auto simp: resolveGroup_pointwise split: list.splits)

lemma resolveGroups_frame:
  "\<forall>gi\<in>set gs. j \<notin> set (snd gi) \<Longrightarrow> fold (resolveGroup messages) gs d j = d j"
  by (induction gs arbitrary: d) (simp_all add: resolveGroup_frame)

lemma resolveGroups_agree:
  "\<forall>i\<in>S. d' i = d i \<Longrightarrow> \<forall>gi\<in>set gs. set (snd gi) \<subseteq> S \<Longrightarrow> j \<in> S \<Longrightarrow>
   fold (resolveGroup messages) gs d' j = fold (resolveGroup messages) gs d j"
proof (induction gs arbitrary: d d')
  case Nil
  then show ?case by simp
next
  case (Cons gi gs)
  have "\<forall>i\<in>S. resolveGroup messages gi d' i = resolveGroup messages gi d i"
    using Cons.prems by (auto intro: resolveGroup_agree)
  then show ?case
    using Cons.IH [of "resolveGroup messages gi d'" "resolveGroup messages gi d"] Cons.prems
    by simp
qed

lemma resolveGroups_name: "el_name (fold (resolveGroup messages) gs d j) = el_name (d j)"
  by (induction gs arbitrary: d) (simp_all add: resolveGroup_name)

lemma standardPass_agree:
  "\<forall>i\<in>set xs. d' i = d i \<Longrightarrow>
   snd (fold standardPass xs (d', ns)) = snd (fold standardPass xs (d, ns))"
proof (induction xs arbitrary: d d' ns)
  case Nil
  then show ?case by simp
next
  case (Cons x xs)
  have "\<forall>i\<in>set xs. setDisabled x False d' i = setDisabled x False d i"
    using Cons.prems by (simp add: setDisabled_def)
  from Cons.IH [OF this] Cons.prems show ?case
    by (simp add: standardPass_def)
qed

lemma standardPass_names:
  "set (snd (fold standardPass xs (d, ns))) \<subseteq> set ns \<union> (\<lambda>i. el_name (d i)) ` set xs"
proof (induction xs arbitrary: d ns)
  case Nil
  then show ?case by simp
next
  case (Cons x xs)
  let ?ns = "if \<not> validityValid (d x) then setAdd (el_name (d x)) ns else ns"
  have step: "fold standardPass (x # xs) (d, ns) = fold standardPass xs (setDisabled x False d, ?ns)"
    by (simp add: standardPass_def)
  have names: "el_name (setDisabled x False d i) = el_name (d i)" for i
    by (simp add: setDisabled_def)
  have "set ?ns \<subseteq> insert (el_name (d x)) (set ns)"
    by (auto simp: setAdd_def)
  then show ?case
    unfolding step using Cons.IH [of "setDisabled x False d" ?ns]
    by (auto simp: names)
qed

text \<open>The document after the groups are resolved.\<close>

lemma validate_names:
  "snd (validate messages f) =
     snd (fold standardPass
            (queryFormInput (f\<lparr>doc := fold (resolveGroup messages) (validationGroups f) (clearCustomValidity f)\<rparr>) None)
            (fold (resolveGroup messages) (validationGroups f) (clearCustomValidity f), []))"
  by (simp add: validate_def Let_def split: prod.splits)

lemma resolved_untouched:
  "j \<notin> set (queryFormInput f (Some validationSelector)) \<Longrightarrow>
   fold (resolveGroup messages) (validationGroups f) (clearCustomValidity f) j = doc f j"
proof -
  assume j: "j \<notin> set (queryFormInput f (Some validationSelector))"
  have "\<forall>gi\<in>set (validationGroups f). j \<notin> set (snd gi)"
    using validationGroups_members [of _ _ f] j by fastforce
  then show ?thesis
    using j by (simp add: resolveGroups_frame clearCustomValidity_def clear_pointwise)
qed

lemma resolved_name:
  "el_name (fold (resolveGroup messages) (validationGroups f) (clearCustomValidity f) j) = el_name (doc f j)"
  by (simp add: resolveGroups_name clearCustomValidity_def clear_pointwise)


lemma resolved_active:
  assumes "active (fold (resolveGroup messages) (validationGroups f) (clearCustomValidity f)) j"
    and "j \<in> set (inputs f)"
  shows "j \<in> set (queryFormInput f None)"
proof (cases "j \<in> set (queryFormInput f (Some validationSelector))")
  case True
  then show ?thesis by (auto simp: queryFormInput_def)
next
  case False
  then show ?thesis
    using assms by (simp add: resolved_untouched queryFormInput_def active_def)
qed

lemma validationGroups_cong:
  assumes "sameActiveFields f f'"
  shows "validationGroups f' = validationGroups f"
  unfolding validationGroups_def queryFormInput_cong [OF assms]
  by (rule fold_cong) (auto simp: groupInput_def sameActiveFields_doc [OF assms])

lemma resolved_cong:
  assumes "sameActiveFields f f'" and "j \<in> set (queryFormInput f None)"
  shows "fold (resolveGroup messages) (validationGroups f') (clearCustomValidity f') j
       = fold (resolveGroup messages) (validationGroups f) (clearCustomValidity f) j"
proof -
  let ?S = "set (queryFormInput f None)"
  have sub: "set (queryFormInput f (Some validationSelector)) \<subseteq> ?S"
    by (auto simp: queryFormInput_def)
  have clear: "\<forall>i\<in>?S. clearCustomValidity f' i = clearCustomValidity f i"
    by (simp add: clearCustomValidity_def clear_pointwise queryFormInput_cong [OF assms(1)]
        sameActiveFields_doc [OF assms(1)])
  have members: "\<forall>gi\<in>set (validationGroups f). set (snd gi) \<subseteq> ?S"
    using validationGroups_members [of _ _ f] sub by fastforce
  show ?thesis
    unfolding validationGroups_cong [OF assms(1)]
    by (rule resolveGroups_agree [OF clear members assms(2)])
qed

lemma resolved_sameActiveFields:
  assumes "sameActiveFields f f'"
  shows "sameActiveFields
           (f\<lparr>doc := fold (resolveGroup messages) (validationGroups f) (clearCustomValidity f)\<rparr>)
           (f'\<lparr>doc := fold (resolveGroup messages) (validationGroups f') (clearCustomValidity f')\<rparr>)"
proof -
  let ?d = "fold (resolveGroup messages) (validationGroups f) (clearCustomValidity f)"
  let ?d' = "fold (resolveGroup messages) (validationGroups f') (clearCustomValidity f')"
  have inputs: "inputs f' = inputs f"
    using assms by (simp add: sameActiveFields_def)
  have "active ?d' i = active ?d i \<and> (active ?d i \<longrightarrow> ?d' i = ?d i)" if i: "i \<in> set (inputs f)" for i
  proof (cases "i \<in> set (queryFormInput f None)")
    case True
    then show ?thesis
      using resolved_cong [OF assms True, of messages] by (simp add: active_def)
  next
    case False
    then have "\<not> active ?d i"
      using resolved_active [of messages f i] i by blast
    moreover have "\<not> active ?d' i"
      using resolved_active [of messages f' i] i False inputs queryFormInput_cong [OF assms, of None]
      by auto
    ultimately show ?thesis by simp
  qed
  then show ?thesis
    using inputs by (simp add: sameActiveFields_def)
qed

lemma validate_cong:
  assumes "sameActiveFields f f'"
  shows "snd (validate messages f') = snd (validate messages f)"
proof -
  let ?d = "fold (resolveGroup messages) (validationGroups f) (clearCustomValidity f)"
  let ?d' = "fold (resolveGroup messages) (validationGroups f') (clearCustomValidity f')"
  have query: "queryFormInput (f'\<lparr>doc := ?d'\<rparr>) None = queryFormInput (f\<lparr>doc := ?d\<rparr>) None"
    by (rule queryFormInput_cong [OF resolved_sameActiveFields [OF assms]])
  have "\<forall>i\<in>set (queryFormInput (f\<lparr>doc := ?d\<rparr>) None). ?d' i = ?d i"
    using sameActiveFields_doc [OF resolved_sameActiveFields [OF assms, of messages], of _ None]
    by simp
  then show ?thesis
    unfolding validate_names query by (rule standardPass_agree)
qed

lemma validate_reports_active:
  "set (snd (validate messages f))
     \<subseteq> (\<lambda>i. el_name (doc f i)) ` {i \<in> set (inputs f). active (doc f) i}"
proof -
  let ?d = "fold (resolveGroup messages) (validationGroups f) (clearCustomValidity f)"
  let ?L = "queryFormInput (f\<lparr>doc := ?d\<rparr>) None"
  have "set ?L \<subseteq> {i \<in> set (inputs f). active (doc f) i}"
    using resolved_active [of messages f] queryFormInput_active [of _ f None]
      queryFormInput_active [of _ "f\<lparr>doc := ?d\<rparr>" None]
    by auto
  then have "(\<lambda>i. el_name (doc f i)) ` set ?L
               \<subseteq> (\<lambda>i. el_name (doc f i)) ` {i \<in> set (inputs f). active (doc f) i}"
    by (rule image_mono)
  moreover have "set (snd (validate messages f)) \<subseteq> (\<lambda>i. el_name (doc f i)) ` set ?L"
    using standardPass_names [of ?L ?d "[]"] unfolding validate_names
    by (simp add: resolved_name)
  ultimately show ?thesis by (rule order_trans [rotated])
qed

subsection \<open>The groups and their entries\<close>

lemma bucket_update: "bucket (AList.update t b gs) t' = (if t' = t then b else bucket gs t')"
  by (simp add: bucket_def update_conv')

lemma bucket_distinct: "distinctKeys gs \<Longrightarrow> distinct (map fst (bucket gs t))"
  by (cases "map_of gs t") (auto simp: bucket_def distinctKeys_def dest!: map_of_SomeD)

lemma distinctKeys_update:
  "distinctKeys gs \<Longrightarrow> distinct (map fst b) \<Longrightarrow> distinctKeys (AList.update t b gs)"
  using set_update_subset [of t b gs] by (auto simp: distinctKeys_def distinct_update)

lemma distinctKeys_entry:
  assumes "distinctKeys gs" "(t, b) \<in> set gs" "(k, e) \<in> set b"
  shows "entryAt gs t k = Some e"
proof -
  have "map_of gs t = Some b"
    using assms by (simp add: distinctKeys_def)
  moreover have "distinct (map fst b)"
    using assms by (auto simp: distinctKeys_def)
  ultimately show ?thesis
    using assms(3) by (simp add: entryAt_def bucket_def)
qed

lemma groupField_eq:
  "groupField d i gs =
     AList.update (fst (fieldKey d i))
       (AList.update (snd (fieldKey d i))
          (if entryAt gs (fst (fieldKey d i)) (snd (fieldKey d i)) \<noteq> None
              \<or> fst (endsWith (el_name (d i)) ''[]'')
           then GArr (entryToArray (entryAt gs (fst (fieldKey d i)) (snd (fieldKey d i))) @ [i])
           else GEl i)
          (bucket gs (fst (fieldKey d i))))
       gs"
  by (simp add: groupField_def fieldKey_def entryAt_def Let_def split: prod.splits)

lemma entryAt_groupField:
  "entryAt (groupField d i gs) t k =
     (if (t, k) = fieldKey d i
      then Some (if entryAt gs t k \<noteq> None \<or> fst (endsWith (el_name (d i)) ''[]'')
                 then GArr (entryToArray (entryAt gs t k) @ [i]) else GEl i)
      else entryAt gs t k)"
  unfolding groupField_eq
  by (cases "fieldKey d i") (auto simp: entryAt_def bucket_update update_conv')

lemma entryAt_mergeValue:
  "entryAt (mergeValue t kv gs) t' k' =
     (if (t', k') = (t, fst kv) then Some (GVal (snd kv)) else entryAt gs t' k')"
  by (auto simp: mergeValue_def entryAt_def bucket_update update_conv')

lemma distinctKeys_groupField: "distinctKeys gs \<Longrightarrow> distinctKeys (groupField d i gs)"
  unfolding groupField_eq by (intro distinctKeys_update distinct_update bucket_distinct)

lemma distinctKeys_mergeValue: "distinctKeys gs \<Longrightarrow> distinctKeys (mergeValue t kv gs)"
  unfolding mergeValue_def by (intro distinctKeys_update distinct_update bucket_distinct)

lemma entryToArray_ids: "set (entryToArray eo) = (case eo of None \<Rightarrow> {} | Some e \<Rightarrow> entryIds e)"
  by (cases eo rule: entryToArray.cases) simp_all


subsection \<open>The side-channel merge as a sequence of writes\<close>

lemma fold_concat_lists: "fold f (concat xss) s = fold (fold f) xss s"
  by (induction xss arbitrary: s) simp_all

lemma mergeBucket_writes:
  "mergeBucket tb gs = fold mergeWrite (map (\<lambda>kv. ((fst tb, fst kv), snd kv)) (snd tb)) gs"
  by (simp add: mergeBucket_def fold_map o_def mergeWrite_def)

lemma mergeWith_writes:
  "mergeWith sc ps nr gs =
     fold mergeWrite
       (if snd nr \<or> fst nr \<in> set ps
        then concat (map (\<lambda>tb. map (\<lambda>kv. ((fst tb, fst kv), snd kv)) (snd tb)) (sc (fst nr)))
        else []) gs"
proof -
  have "fold mergeBucket bs gs =
          fold mergeWrite (concat (map (\<lambda>tb. map (\<lambda>kv. ((fst tb, fst kv), snd kv)) (snd tb)) bs)) gs"
    for bs
    by (induction bs arbitrary: gs) (simp_all add: mergeBucket_writes)
  then show ?thesis
    by (simp add: mergeWith_def)
qed

lemma mergedGroups_writes:
  "mergedGroups f sc ps = fold mergeWrite (sideWrites sc ps) (groupFields f)"
proof -
  have "fold (mergeWith sc ps) ws gs =
          fold mergeWrite
            (concat (map (\<lambda>nr. if snd nr \<or> fst nr \<in> set ps
                                then concat (map (\<lambda>tb. map (\<lambda>kv. ((fst tb, fst kv), snd kv)) (snd tb))
                                               (sc (fst nr)))
                                else []) ws)) gs"
    for ws gs
    by (induction ws arbitrary: gs) (simp_all add: mergeWith_writes)
  then show ?thesis
    by (simp add: mergedGroups_def sideWrites_def)
qed

lemma entryAt_mergeWrite:
  "entryAt (mergeWrite w gs) t k = (if (t, k) = fst w then Some (GVal (snd w)) else entryAt gs t k)"
  by (cases w) (auto simp: mergeWrite_def entryAt_mergeValue)

lemma entryAt_writes:
  "entryAt (fold mergeWrite ws gs) t k =
     (case map_of (rev ws) (t, k) of None \<Rightarrow> entryAt gs t k | Some v \<Rightarrow> Some (GVal v))"
proof (induction ws rule: rev_induct)
  case Nil
  then show ?case by simp
next
  case (snoc w ws)
  then show ?case
    by (cases w) (auto simp: entryAt_mergeWrite)
qed

lemma distinctKeys_writes: "distinctKeys gs \<Longrightarrow> distinctKeys (fold mergeWrite ws gs)"
  by (induction ws arbitrary: gs) (simp_all add: mergeWrite_def distinctKeys_mergeValue)

lemma distinctKeys_groupFields: "distinctKeys (groupFields f)"
proof -
  have "distinctKeys (fold (groupField d) xs gs)" if "distinctKeys gs" for d xs and gs :: groups
    using that by (induction xs arbitrary: gs) (simp_all add: distinctKeys_groupField)
  moreover have "distinctKeys ([] :: groups)"
    by (simp add: distinctKeys_def)
  ultimately show ?thesis
    unfolding groupFields_def by blast
qed

lemma distinctKeys_mergedGroups: "distinctKeys (mergedGroups f sc ps)"
  by (simp add: mergedGroups_writes distinctKeys_writes distinctKeys_groupFields)

subsection \<open>The fields behind the entries\<close>

lemma keyed_groupField:
  assumes "keyed d X gs" "i \<in> X"
  shows "keyed d X (groupField d i gs)"
  using assms unfolding keyed_def entryAt_groupField
  by (auto simp: entryToArray_ids split: if_splits option.splits)

lemma keyed_groupFields: "keyed (doc f) (set (queryFormInput f None)) (groupFields f)"
  unfolding groupFields_def
  by (rule fold_invariant [where Q = "\<lambda>i. i \<in> set (queryFormInput f None)"])
    (simp_all add: keyed_groupField, simp add: keyed_def entryAt_def bucket_def)

lemma keyed_writes: "keyed d X gs \<Longrightarrow> keyed d X (fold mergeWrite ws gs)"
  unfolding keyed_def entryAt_writes
  by (auto split: option.splits)

lemma keyed_mergedGroups:
  "keyed (doc f) (set (queryFormInput f None)) (mergedGroups f sc ps)"
  by (simp add: mergedGroups_writes keyed_writes keyed_groupFields)

subsection \<open>Writing the groups reads the fields behind the entries only\<close>

lemma entryValue_cong:
  assumes "\<forall>i\<in>entryIds e. d' i = d i"
  shows "entryValue h d' e = entryValue h d e"
proof (cases e)
  case (GEl i)
  then show ?thesis using assms by simp
next
  case (GArr "is")
  then have same: "\<forall>i\<in>set is. d' i = d i"
    using assms by simp
  then have vals: "map (\<lambda>i. flat (getElementValue h (d' i))) is
                      = map (\<lambda>i. flat (getElementValue h (d i))) is"
    by simp
  have radio: "(case is of [] \<Rightarrow> False | i # _ \<Rightarrow> isRadio (d' i))
             = (case is of [] \<Rightarrow> False | i # _ \<Rightarrow> isRadio (d i))"
    using same by (cases "is") simp_all
  show ?thesis
    by (simp only: GArr entryValue.simps vals radio)
next
  case (GVal v)
  then show ?thesis by (cases v) simp_all
qed

lemma writeGroups_cong:
  assumes "distinctKeys gs"
    and "\<forall>t k e i. entryAt gs t k = Some e \<and> i \<in> entryIds e \<longrightarrow> d' i = d i"
  shows "writeGroups h d' gs = writeGroups h d gs"
  unfolding writeGroups_def
proof (rule fold_cong [OF refl refl])
  fix tg assume tg: "tg \<in> set gs"
  have "fold (writeEntry h d') (snd tg) target = fold (writeEntry h d) (snd tg) target" for target
  proof (rule fold_cong [OF refl refl])
    fix ne assume "ne \<in> set (snd tg)"
    then have "entryAt gs (fst tg) (fst ne) = Some (snd ne)"
      using distinctKeys_entry [OF assms(1), of "fst tg" "snd tg" "fst ne" "snd ne"] tg by simp
    then have "entryValue h d' (snd ne) = entryValue h d (snd ne)"
      using assms(2) by (intro entryValue_cong) blast
    then show "writeEntry h d' ne = writeEntry h d ne"
      by (simp add: writeEntry_def fun_eq_iff)
  qed
  then show "writeGroup h d' tg = writeGroup h d tg"
    by (simp add: writeGroup_def fun_eq_iff)
qed

section \<open>The fields that count\<close>

lemma groupFields_cong:
  assumes "queryFormInput f' None = queryFormInput f None"
    and "\<forall>i\<in>set (queryFormInput f None).
           el_name (doc f' i) = el_name (doc f i) \<and> toType (doc f' i) = toType (doc f i)"
  shows "groupFields f' = groupFields f"
  unfolding groupFields_def assms(1)
  using assms(2) by (intro fold_cong) (auto simp: groupField_def)

lemma generate_sameActiveFields:
  assumes "sameActiveFields f f'"
  shows "generateDataAndProps h f' sc ps = generateDataAndProps h f sc ps"
proof -
  have query: "queryFormInput f' None = queryFormInput f None"
    by (rule queryFormInput_cong [OF assms])
  have same: "\<forall>i\<in>set (queryFormInput f None). doc f' i = doc f i"
    using sameActiveFields_doc [OF assms] by blast
  have "groupFields f' = groupFields f"
    using same by (intro groupFields_cong query) simp
  then have merged: "mergedGroups f' sc ps = mergedGroups f sc ps"
    by (simp add: mergedGroups_def)
  have "writeGroups h (doc f') (mergedGroups f sc ps) = writeGroups h (doc f) (mergedGroups f sc ps)"
    using keyed_mergedGroups [of f sc ps] same
    by (intro writeGroups_cong distinctKeys_mergedGroups) (auto simp: keyed_def)
  then show ?thesis
    by (simp add: generateDataAndProps_def merged)
qed

lemma applied_sameActiveFields:
  assumes "sameActiveFields f f'"
  shows "handleEventApplied f' request response sc = handleEventApplied f request response sc"
proof -
  have "applySelector f' sv = applySelector f sv" for sv
    unfolding applySelector_def queryFormInput_cong [OF assms] fun_eq_iff
    using sameActiveFields_doc [OF assms]
    by (auto intro!: fold_cong simp: applyTo_def)
  then have "applySelector f' = applySelector f"
    by (rule ext)
  then show ?thesis
    by (simp add: handleEventApplied_def)
qed

text \<open>
  C10. Every read of the input collection gives fields that are enabled and have a name that
  is not blank. Every name the validation pass reports is the name of such a field. And
  what the other fields hold is never read: two forms with the same input collection that
  agree on which fields are let through and on what these hold have the same validation
  groups, the same reported names, the same assembled body and the same applied values.
\<close>

theorem C10_only_active_fields:
  "(\<forall>i \<in> set (queryFormInput f sel). active (doc f) i)
   \<and> set (snd (validate messages f))
       \<subseteq> (\<lambda>i. el_name (doc f i)) ` {i \<in> set (inputs f). active (doc f) i}
   \<and> (sameActiveFields f f'
        \<longrightarrow> validationGroups f' = validationGroups f
          \<and> snd (validate messages f') = snd (validate messages f)
          \<and> generateDataAndProps h f' sc ps = generateDataAndProps h f sc ps
          \<and> handleEventApplied f' request response sc = handleEventApplied f request response sc)"
  using queryFormInput_active [of _ f sel] validate_reports_active [of messages f]
  by (simp add: validationGroups_cong validate_cong generate_sameActiveFields
      applied_sameActiveFields)

theorem C10_only_active_fields_witness:
  "sameActiveFields
     (tripleForm (namedText ''a'' ''x'') (disabledField []) (namelessField []))
     (tripleForm (namedText ''a'' ''x'') (disabledField ''changed'') (namelessField ''changed''))
   \<and> queryFormInput (tripleForm (namedText ''a'' ''x'') (disabledField []) (namelessField [])) None
       = [0]
   \<and> active (doc (tripleForm (namedText ''a'' ''x'') (disabledField []) (namelessField []))) 0
   \<and> snd (validate (\<lambda>g. []) (tripleForm (namedText ''a'' ''x'') (disabledField []) (namelessField [])))
       = []
   \<and> snd (validate (\<lambda>g. [])
            (tripleForm (namedText ''a'' ''x'') (disabledField ''changed'') (namelessField ''changed'')))
       = []
   \<and> generateDataAndProps plainHost
        (tripleForm (namedText ''a'' ''x'') (disabledField []) (namelessField [])) (\<lambda>n. []) []
       = Obj [(''data'', Obj [(''a'', Str ''x'')])]
   \<and> generateDataAndProps plainHost
        (tripleForm (namedText ''a'' ''x'') (disabledField ''changed'') (namelessField ''changed''))
        (\<lambda>n. []) []
       = Obj [(''data'', Obj [(''a'', Str ''x'')])]"
proof -
  let ?f = "tripleForm (namedText ''a'' ''x'') (disabledField []) (namelessField [])"
  let ?f' = "tripleForm (namedText ''a'' ''x'') (disabledField ''changed'') (namelessField ''changed'')"
  have same: "sameActiveFields ?f ?f'"
    by (simp add: sameActiveFields_def active_def tripleForm_def namedText_def disabledField_def
        namelessField_def textInput_def isNotBlank_def whitespace_def)
  have query: "queryFormInput ?f None = [0]"
    by (simp add: queryFormInput_def tripleForm_def namedText_def disabledField_def
        namelessField_def textInput_def isNotBlank_def whitespace_def)
  have valid: "snd (validate (\<lambda>g. []) ?f) = []"
    by (simp add: validate_defs tripleForm_def namedText_def disabledField_def
        namelessField_def textInput_def isNotBlank_def whitespace_def)
  have body: "generateDataAndProps plainHost ?f (\<lambda>n. []) [] = Obj [(''data'', Obj [(''a'', Str ''x'')])]"
    by (simp add: assemble_defs tripleForm_def namedText_def disabledField_def
        namelessField_def textInput_def plainHost_def)
  show ?thesis
    using C10_only_active_fields [of ?f None "\<lambda>g. []" ?f' plainHost "\<lambda>n. []" "[]"] same query
      valid body
    by simp
qed

section \<open>The side-channel merge\<close>






end
